theory Spec2Isabelle
  imports Main "HOL-Library.Word"
begin

section \<open>Interface repair of hierarchical multi-patch bases (gsMultiBasis.hpp)\<close>

text \<open>
  A shallow embedding of \<^verbatim>\<open>gsMultiBasis<T>::repairInterface\<close>,
  \<^verbatim>\<open>repairInterfaceFindElements<d>\<close> and \<^verbatim>\<open>repairInterface2d\<close>.

  \<^item> The C++ type \<^verbatim>\<open>unsigned\<close> is a 32-bit word: subtraction wraps around,
    comparison is unsigned. \<^verbatim>\<open>x << k\<close> and \<^verbatim>\<open>x >> k\<close> are \<open>push_bit\<close> and
    \<open>drop_bit\<close>; C++ leaves a shift by 32 or more undefined, the model gives 0 there.
  \<^item> Modelled from the spec: \<^verbatim>\<open>GISMO_ASSERT\<close>, a macro declared outside the files at hand,
    is a fatal assertion; a failed assertion is the result \<open>Inl\<close>. An access to the last
    row of a matrix without rows fails in the same way (\<open>IndexOutOfRange\<close>).
  \<^item> A \<^verbatim>\<open>gsVector\<close> and a matrix row are lists, read with \<open>!\<close> and written with
    list update. The source reads them unchecked; an index outside the vector is outside
    the contract of the interface data, and the theorems state the contract they need.
  \<^item> The hierarchical tree, the bases and the interface descriptor are declared outside
    this file of the repository: the queries the code makes are parameters (\<open>htreeApi\<close>),
    the descriptor's accessors are record fields.
\<close>

type_synonym u32 = "32 word"

definition shl :: "u32 \<Rightarrow> u32 \<Rightarrow> u32" where
  "shl x k = push_bit (unat k) x"

definition shr :: "u32 \<Rightarrow> u32 \<Rightarrow> u32" where
  "shr x k = drop_bit (unat k) x"

datatype error = AssertFailed string | IndexOutOfRange

subsection \<open>Interface descriptor and tree queries\<close>

text \<open>
  \<open>patchSide\<close>: \<^verbatim>\<open>bi.first().patch\<close>, \<^verbatim>\<open>.side().index()\<close> (1 west, 2 east, 3 south,
  4 north, 5 front, 6 back) and \<^verbatim>\<open>.direction()\<close>.
\<close>

record patchSide =
  patch :: nat
  sideIndex :: nat
  direction :: nat

record boundaryInterface =
  first :: patchSide
  second :: patchSide
  dirMap :: "nat list"
  dirOrientation :: "bool list"

text \<open>
  One row of the three outputs of \<^verbatim>\<open>getBoxesOnSide(side, lo, up, level)\<close>: row \<open>i\<close> of the
  matrices \<^verbatim>\<open>lo\<close> and \<^verbatim>\<open>up\<close> and entry \<open>i\<close> of \<^verbatim>\<open>level\<close>.
\<close>

record hbox =
  lo :: "u32 list"
  up :: "u32 list"
  level :: u32

text \<open>
  The calls the code makes on a basis of \<^verbatim>\<open>m_bases\<close>: whether the
  \<^verbatim>\<open>dynamic_cast\<close> to \<^verbatim>\<open>gsHTensorBasis<d,T>\<close> succeeds, the queries on its
  \<^verbatim>\<open>tree()\<close>, and \<^verbatim>\<open>refineElements\<close>, which returns the refined basis.
\<close>

record 'b htreeApi =
  isHTensorBasis :: "nat \<Rightarrow> 'b \<Rightarrow> bool"
  getIndexLevel :: "'b \<Rightarrow> u32"
  getMaxInsLevel :: "'b \<Rightarrow> u32"
  upperCorner :: "'b \<Rightarrow> u32 list"
  getBoxesOnSide :: "'b \<Rightarrow> nat \<Rightarrow> hbox list"
  refineElements :: "'b \<Rightarrow> u32 list \<Rightarrow> 'b"

subsection \<open>Level normalisation (lines 260-308)\<close>

text \<open>The higher one of both index levels (line 261).\<close>

definition indexLevelUse :: "'b htreeApi \<Rightarrow> 'b list \<Rightarrow> boundaryInterface \<Rightarrow> u32" where
  "indexLevelUse api m_bases bi =
     (let bas0 = m_bases ! patch (first bi);
          bas1 = m_bases ! patch (second bi)
      in if getIndexLevel api bas0 > getIndexLevel api bas1
         then getIndexLevel api bas0 else getIndexLevel api bas1)"

text \<open>\<^verbatim>\<open>for (i < d) upperCorn[i] = upperCorn[i] << indexLevelDiff\<close>\<close>

definition scaleCorner :: "nat \<Rightarrow> u32 \<Rightarrow> u32 list \<Rightarrow> u32 list" where
  "scaleCorner d k v = fold (\<lambda>i w. w[i := shl (w ! i) k]) [0..<d] v"

text \<open>The body of the loop over \<open>j\<close> for one row of the first side (lines 286-290).\<close>

definition scaleBoxStep :: "u32 \<Rightarrow> nat \<Rightarrow> hbox \<Rightarrow> hbox" where
  "scaleBoxStep e j r =
     r\<lparr>lo := (lo r)[j := shl (lo r ! j) e], up := (up r)[j := shl (up r ! j) e]\<rparr>"

definition scaleBox :: "nat \<Rightarrow> u32 \<Rightarrow> hbox \<Rightarrow> hbox" where
  "scaleBox d e r = fold (scaleBoxStep e) [0..<d] r"

text \<open>
  The body of the loop over \<open>jj\<close> for one row of the second side (lines 293-308): the
  column is \<open>j = dirMap[jj]\<close>; it is shifted, and reflected about \<open>upperCorn1[j]\<close> when
  \<open>dirOrient[jj]\<close> is false.
\<close>

definition mapBoxStep :: "nat list \<Rightarrow> bool list \<Rightarrow> u32 list \<Rightarrow> u32 \<Rightarrow> nat \<Rightarrow> hbox \<Rightarrow> hbox" where
  "mapBoxStep dm dor uc1 e jj r =
     (let j = dm ! jj;
          l = shl (lo r ! j) e;
          u = shl (up r ! j) e
      in if \<not> dor ! jj
         then r\<lparr>lo := (lo r)[j := uc1 ! j - u], up := (up r)[j := uc1 ! j - l]\<rparr>
         else r\<lparr>lo := (lo r)[j := l], up := (up r)[j := u]\<rparr>)"

definition mapBox :: "nat \<Rightarrow> nat list \<Rightarrow> bool list \<Rightarrow> u32 list \<Rightarrow> u32 \<Rightarrow> hbox \<Rightarrow> hbox" where
  "mapBox d dm dor uc1 e r = fold (mapBoxStep dm dor uc1 e) [0..<d] r"

text \<open>
  The upper corners with respect to level \<^verbatim>\<open>indexLevelUse\<close> (lines 266-272, and lines
  516-522 with \<open>d = 2\<close>).
\<close>

definition upperCorn0 :: "'b htreeApi \<Rightarrow> nat \<Rightarrow> 'b list \<Rightarrow> boundaryInterface \<Rightarrow> u32 list" where
  "upperCorn0 api d m_bases bi =
     (let bas0 = m_bases ! patch (first bi);
          indexLevelDiff0 = indexLevelUse api m_bases bi - getIndexLevel api bas0
      in scaleCorner d indexLevelDiff0 (upperCorner api bas0))"

definition upperCorn1 :: "'b htreeApi \<Rightarrow> nat \<Rightarrow> 'b list \<Rightarrow> boundaryInterface \<Rightarrow> u32 list" where
  "upperCorn1 api d m_bases bi =
     (let bas1 = m_bases ! patch (second bi);
          indexLevelDiff1 = indexLevelUse api m_bases bi - getIndexLevel api bas1
      in scaleCorner d indexLevelDiff1 (upperCorner api bas1))"

text \<open>
  The boxes on the two sides after lines 280-308: \<^verbatim>\<open>lo0, up0, level0\<close> and
  \<^verbatim>\<open>lo1, up1, level1\<close>, row by row.
\<close>

definition boxes0 :: "'b htreeApi \<Rightarrow> nat \<Rightarrow> 'b list \<Rightarrow> boundaryInterface \<Rightarrow> hbox list" where
  "boxes0 api d m_bases bi =
     (let bas0 = m_bases ! patch (first bi);
          idxExponent = indexLevelUse api m_bases bi - getMaxInsLevel api bas0
      in map (scaleBox d idxExponent) (getBoxesOnSide api bas0 (sideIndex (first bi))))"

definition boxes1 :: "'b htreeApi \<Rightarrow> nat \<Rightarrow> 'b list \<Rightarrow> boundaryInterface \<Rightarrow> hbox list" where
  "boxes1 api d m_bases bi =
     (let bas1 = m_bases ! patch (second bi);
          idxExponent = indexLevelUse api m_bases bi - getMaxInsLevel api bas1
      in map (mapBox d (dirMap bi) (dirOrientation bi) (upperCorn1 api d m_bases bi) idxExponent)
           (getBoxesOnSide api bas1 (sideIndex (second bi))))"

subsection \<open>Pairwise overlap of the boundary boxes (lines 316-369)\<close>

text \<open>The switch on \<^verbatim>\<open>bi.first().direction()\<close>: \<open>(a0, b0, c0)\<close>.\<close>

definition spanDirs :: "nat \<Rightarrow> nat \<times> nat \<times> nat" where
  "spanDirs dir =
     (if dir = 0 then (1, 2, 0)
      else if dir = 1 then (0, 2, 1)
      else if dir = 2 then (0, 1, 2)
      else (99, 99, 99))"

text \<open>
  Lines 336-345: the axes \<open>(a0, b0, c0)\<close> of the first side, with \<open>b0 = a0\<close> when
  \<open>d = 2\<close>, and the axes \<open>(a1, b1, c1)\<close> of the second side, their images under
  \<^verbatim>\<open>dirMap\<close>. Both are computed once, before the loops.
\<close>

definition sideAxes0 :: "nat \<Rightarrow> boundaryInterface \<Rightarrow> nat \<times> nat \<times> nat" where
  "sideAxes0 d bi =
     (case spanDirs (direction (first bi)) of
        (a0, b0, c0) \<Rightarrow> (a0, if d = 2 then a0 else b0, c0))"

definition sideAxes1 :: "nat \<Rightarrow> boundaryInterface \<Rightarrow> nat \<times> nat \<times> nat" where
  "sideAxes1 d bi =
     (case sideAxes0 d bi of
        (a0, b0, c0) \<Rightarrow> (dirMap bi ! a0, dirMap bi ! b0, dirMap bi ! c0))"

definition boxesOverlap :: "nat \<Rightarrow> nat \<Rightarrow> nat \<Rightarrow> nat \<Rightarrow> hbox \<Rightarrow> hbox \<Rightarrow> bool" where
  "boxesOverlap a0 b0 a1 b1 r0 r1 \<longleftrightarrow>
     lo r0 ! a0 < up r1 ! a1 \<and> lo r0 ! b0 < up r1 ! b1 \<and>
     lo r1 ! a1 < up r0 ! a0 \<and> lo r1 ! b1 < up r0 ! b0"

text \<open>The vector \<^verbatim>\<open>tmp\<close> pushed to \<^verbatim>\<open>iU\<close>: six entries.\<close>

definition overlapBox :: "nat \<Rightarrow> nat \<Rightarrow> nat \<Rightarrow> nat \<Rightarrow> hbox \<Rightarrow> hbox \<Rightarrow> u32 list" where
  "overlapBox a0 b0 a1 b1 r0 r1 =
     [max (lo r0 ! a0) (lo r1 ! a1), max (lo r0 ! b0) (lo r1 ! b1),
      min (up r0 ! a0) (up r1 ! a1), min (up r0 ! b0) (up r1 ! b1),
      level r0, level r1]"

fun overlapsInner ::
  "nat \<Rightarrow> nat \<Rightarrow> nat \<Rightarrow> nat \<Rightarrow> hbox \<Rightarrow> hbox list \<Rightarrow> u32 list list \<Rightarrow> u32 list list" where
  "overlapsInner a0 b0 a1 b1 r0 [] iU = iU"
| "overlapsInner a0 b0 a1 b1 r0 (r1 # rs1) iU =
     overlapsInner a0 b0 a1 b1 r0 rs1
       (if boxesOverlap a0 b0 a1 b1 r0 r1 then iU @ [overlapBox a0 b0 a1 b1 r0 r1] else iU)"

fun overlapsOuter ::
  "nat \<Rightarrow> nat \<Rightarrow> nat \<Rightarrow> nat \<Rightarrow> hbox list \<Rightarrow> hbox list \<Rightarrow> u32 list list \<Rightarrow> u32 list list" where
  "overlapsOuter a0 b0 a1 b1 [] rs1 iU = iU"
| "overlapsOuter a0 b0 a1 b1 (r0 # rs0) rs1 iU =
     overlapsOuter a0 b0 a1 b1 rs0 rs1 (overlapsInner a0 b0 a1 b1 r0 rs1 iU)"

subsection \<open>Emission of the refinement boxes (lines 371-457)\<close>

text \<open>
  The loop \<open>jj < d\<close> of the branch "refine second" (lines 439-449): the entries \<open>1+j\<close> and
  \<open>1+d+j\<close> of \<^verbatim>\<open>tmpvec\<close> are reflected about \<open>upperCorn1[j] >> s\<close> when \<open>j = dirMap[jj]\<close>
  is not \<open>c\<close> and \<open>dirOrient[jj]\<close> is false.
\<close>

definition unflipStep ::
  "nat \<Rightarrow> nat list \<Rightarrow> bool list \<Rightarrow> u32 list \<Rightarrow> u32 \<Rightarrow> nat \<Rightarrow> nat \<Rightarrow> u32 list \<Rightarrow> u32 list" where
  "unflipStep d dm dor uc1 s c jj tv =
     (let j = dm ! jj
      in if j \<noteq> c \<and> \<not> dor ! jj
         then (let upperCornOnLevel = shr (uc1 ! j) s;
                   tmp = tv ! (1 + j);
                   tv1 = tv[1 + j := upperCornOnLevel - tv ! (1 + d + j)]
               in tv1[1 + d + j := upperCornOnLevel - tmp])
         else tv)"

definition unflip ::
  "nat \<Rightarrow> nat list \<Rightarrow> bool list \<Rightarrow> u32 list \<Rightarrow> u32 \<Rightarrow> nat \<Rightarrow> u32 list \<Rightarrow> u32 list" where
  "unflip d dm dor uc1 s c tv = fold (unflipStep d dm dor uc1 s c) [0..<d] tv"

text \<open>
  Lines 381-427: \<^verbatim>\<open>tmpvec\<close> after the level, the box on the interface and the slab on
  the normal axis are stored, for the side that is refined: \<open>(a, b, c)\<close> are its axes,
  \<open>refSideIndex\<close> its side index and \<open>uc\<close> its upper corner.
\<close>

definition fillBox ::
  "nat \<Rightarrow> u32 \<Rightarrow> u32 \<Rightarrow> nat \<Rightarrow> nat \<Rightarrow> nat \<Rightarrow> nat \<Rightarrow> u32 list \<Rightarrow> u32 list \<Rightarrow> u32 list \<Rightarrow> u32 list" where
  "fillBox d ilu Luse a b c refSideIndex uc seg tmpvec =
     (let upperCornOnLevel = shr (uc ! c) (ilu - Luse);
          t0 = tmpvec[0 := Luse];
          t1 = t0[1 + a := shr (seg ! 0) (ilu - Luse)];
          t2 = t1[1 + d + a := shr (seg ! 2) (ilu - Luse)];
          t3 = (if d = 3
                then (t2[1 + b := shr (seg ! 1) (ilu - Luse)])
                       [1 + d + b := shr (seg ! 3) (ilu - Luse)]
                else t2)
      in if refSideIndex mod 2 = 1
         then (t3[1 + c := 0])[1 + d + c := 1]
         else (t3[1 + c := upperCornOnLevel - 1])[1 + d + c := upperCornOnLevel])"

text \<open>
  One pass of the loop over \<^verbatim>\<open>iU\<close>. The state is \<^verbatim>\<open>tmpvec\<close> (declared before the loop
  and reused), \<^verbatim>\<open>refEltsFirst\<close> and \<^verbatim>\<open>refEltsSecond\<close>; \<open>ax0\<close> and \<open>ax1\<close> are the axes
  of the two sides. Inside \<^verbatim>\<open>if (L0 != L1)\<close> the test \<^verbatim>\<open>Luse == L1\<close> of line 429 holds
  exactly in the branch \<^verbatim>\<open>L0 < L1\<close>, so the two tests are one branch here.
\<close>

definition emitStep ::
  "nat \<Rightarrow> boundaryInterface \<Rightarrow> u32 \<Rightarrow> u32 list \<Rightarrow> u32 list \<Rightarrow> nat \<times> nat \<times> nat \<Rightarrow>
   nat \<times> nat \<times> nat \<Rightarrow> u32 list \<Rightarrow>
   u32 list \<times> u32 list \<times> u32 list \<Rightarrow> u32 list \<times> u32 list \<times> u32 list" where
  "emitStep d bi ilu uc0 uc1 ax0 ax1 seg st =
     (case st of (tmpvec, refEltsFirst, refEltsSecond) \<Rightarrow>
      (case ax0 of (a0, b0, c0) \<Rightarrow>
       (case ax1 of (a1, b1, c1) \<Rightarrow>
        let L0 = seg ! 4;
            L1 = seg ! 5
        in if L0 \<noteq> L1
           then (if L0 < L1
                 then (let tv = fillBox d ilu L1 a0 b0 c0 (sideIndex (first bi)) uc0 seg tmpvec
                       in (tv, refEltsFirst @ tv, refEltsSecond))
                 else (let tv = fillBox d ilu L0 a1 b1 c1 (sideIndex (second bi)) uc1 seg tmpvec;
                           tv' = unflip d (dirMap bi) (dirOrientation bi) uc1 (ilu - L0) c1 tv
                       in (tv', refEltsFirst, refEltsSecond @ take (1 + 2 * d) tv')))
           else st)))"

definition emitAll ::
  "nat \<Rightarrow> boundaryInterface \<Rightarrow> u32 \<Rightarrow> u32 list \<Rightarrow> u32 list \<Rightarrow> nat \<times> nat \<times> nat \<Rightarrow>
   nat \<times> nat \<times> nat \<Rightarrow> u32 list list \<Rightarrow> u32 list \<times> u32 list \<times> u32 list" where
  "emitAll d bi ilu uc0 uc1 ax0 ax1 segs =
     fold (emitStep d bi ilu uc0 uc1 ax0 ax1) segs (replicate (1 + 2 * d) 0, [], [])"

subsection \<open>repairInterfaceFindElements and repairInterface\<close>

text \<open>The merged interface mesh \<^verbatim>\<open>iU\<close> (lines 316-369).\<close>

definition iU :: "'b htreeApi \<Rightarrow> nat \<Rightarrow> 'b list \<Rightarrow> boundaryInterface \<Rightarrow> u32 list list" where
  "iU api d m_bases bi =
     (case sideAxes0 d bi of (a0, b0, c0) \<Rightarrow>
      (case sideAxes1 d bi of (a1, b1, c1) \<Rightarrow>
        overlapsOuter a0 b0 a1 b1 (boxes0 api d m_bases bi) (boxes1 api d m_bases bi) []))"

text \<open>The result is \<open>(refEltsFirst, refEltsSecond, returned flag)\<close>.\<close>

definition repairInterfaceFindElements ::
  "'b htreeApi \<Rightarrow> nat \<Rightarrow> 'b list \<Rightarrow> boundaryInterface \<Rightarrow> error + (u32 list \<times> u32 list \<times> bool)" where
  "repairInterfaceFindElements api d m_bases bi =
     (if \<not> (d = 2 \<or> d = 3) then Inl (AssertFailed ''Dimension must be 2 or 3.'')
      else if \<not> (isHTensorBasis api d (m_bases ! patch (first bi)) \<and>
                  isHTensorBasis api d (m_bases ! patch (second bi)))
      then Inl (AssertFailed ''Cannot cast basis as needed.'')
      else (case emitAll d bi (indexLevelUse api m_bases bi) (upperCorn0 api d m_bases bi)
                   (upperCorn1 api d m_bases bi) (sideAxes0 d bi) (sideAxes1 d bi)
                   (iU api d m_bases bi) of
              (tmpvec, refEltsFirst, refEltsSecond) \<Rightarrow>
                Inr (refEltsFirst, refEltsSecond,
                     length refEltsFirst > 0 \<or> length refEltsSecond > 0)))"

text \<open>
  \<^verbatim>\<open>repairInterface\<close>: \<open>dim\<close> is \<^verbatim>\<open>this->dim()\<close>. The result is the collection of bases
  after the call and the returned flag.
\<close>

definition repairInterface ::
  "'b htreeApi \<Rightarrow> nat \<Rightarrow> 'b list \<Rightarrow> boundaryInterface \<Rightarrow> error + ('b list \<times> bool)" where
  "repairInterface api dim m_bases bi =
     (case (if dim = 2 then repairInterfaceFindElements api 2 m_bases bi
            else if dim = 3 then repairInterfaceFindElements api 3 m_bases bi
            else Inl (AssertFailed ''wrong dimension'')) of
        Inl e \<Rightarrow> Inl e
      | Inr (refEltsFirst, refEltsSecond, changed) \<Rightarrow>
          (if changed
           then (let m1 = (if length refEltsFirst > 0
                           then m_bases[patch (first bi) :=
                                  refineElements api (m_bases ! patch (first bi)) refEltsFirst]
                           else m_bases);
                     m2 = (if length refEltsSecond > 0
                           then m1[patch (second bi) :=
                                  refineElements api (m1 ! patch (second bi)) refEltsSecond]
                           else m1)
                 in Inr (m2, changed))
           else Inr (m_bases, changed)))"

subsection \<open>repairInterface2d\<close>

text \<open>A row of \<^verbatim>\<open>intfc0\<close> and \<^verbatim>\<open>intfc1\<close>: (start knot, end knot, level).\<close>

type_synonym span = "u32 \<times> u32 \<times> u32"

definition spansOfBoxes :: "nat \<Rightarrow> u32 \<Rightarrow> hbox list \<Rightarrow> span list" where
  "spansOfBoxes dir e rows = map (\<lambda>r. (shl (lo r ! dir) e, shl (up r ! dir) e, level r)) rows"

text \<open>
  Modelled from the spec: \<^verbatim>\<open>gsMatrix::sortByColumn\<close> is declared outside the files at
  hand; the spec says "sort each side by start coordinate". Rows with equal start keep
  their order.
\<close>

definition sortByColumn0 :: "span list \<Rightarrow> span list" where
  "sortByColumn0 rows = sort_key fst rows"

text \<open>Lines 524-533: every row of \<^verbatim>\<open>intfc1\<close> is reflected about \<^verbatim>\<open>upperCorn1[dir1]\<close>.\<close>

definition flipSpans :: "u32 \<Rightarrow> span list \<Rightarrow> span list" where
  "flipSpans ucd rows = map (\<lambda>(s, e, l). (ucd - e, ucd - s, l)) rows"

text \<open>
  The merge loop (lines 542-573). The cursors \<^verbatim>\<open>i0\<close> and \<^verbatim>\<open>i1\<close> are the remaining rows
  of the two tables; a row of \<^verbatim>\<open>intfcU\<close> is (end knot, level on first, level on second).
\<close>

fun mergeSpans :: "span list \<Rightarrow> span list \<Rightarrow> span list" where
  "mergeSpans ((s0, e0, l0) # r0) ((s1, e1, l1) # r1) =
     (if e0 = e1 then (e0, l0, l1) # mergeSpans r0 r1
      else if e0 > e1 then (e1, l0, l1) # mergeSpans ((s0, e0, l0) # r0) r1
      else (e0, l0, l1) # mergeSpans r0 ((s1, e1, l1) # r1))"
| "mergeSpans [] r1 = []"
| "mergeSpans r0 [] = []"

text \<open>
  The switch on the side index (lines 598-631 for the first patch, 652-687 for the
  second, which differ only in how \<^verbatim>\<open>upperCornOnLevel\<close> is stored): the four numbers
  pushed after the level.
\<close>

definition pushSideBox :: "nat \<Rightarrow> u32 list \<Rightarrow> u32 \<Rightarrow> u32 \<Rightarrow> u32 \<Rightarrow> error + u32 list" where
  "pushSideBox idx uc s knot0L knot1L =
     (if idx = 1 then Inr [0, knot0L, 1, knot1L]
      else if idx = 2
      then (let upperCornOnLevel = shr (uc ! 0) s
            in Inr [upperCornOnLevel - 1, knot0L, upperCornOnLevel, knot1L])
      else if idx = 3 then Inr [knot0L, 0, knot1L, 1]
      else if idx = 4
      then (let upperCornOnLevel = shr (uc ! 1) s
            in Inr [knot0L, upperCornOnLevel - 1, knot1L, upperCornOnLevel])
      else Inl (AssertFailed ''3D not implemented yet. You can do it, if you want.''))"

text \<open>
  One pass of the loop over \<^verbatim>\<open>intfcU\<close> (lines 582-689). The state is \<^verbatim>\<open>knot1\<close>,
  \<^verbatim>\<open>refElts0\<close> and \<^verbatim>\<open>refElts1\<close>.
\<close>

definition emitStep2d ::
  "boundaryInterface \<Rightarrow> u32 \<Rightarrow> u32 list \<Rightarrow> u32 list \<Rightarrow> bool \<Rightarrow> nat \<Rightarrow> span \<Rightarrow>
   u32 \<times> u32 list \<times> u32 list \<Rightarrow> error + (u32 \<times> u32 list \<times> u32 list)" where
  "emitStep2d bi ilu uc0 uc1 orientPreserv dir1 seg st =
     (case st of (knotPrev, refElts0, refElts1) \<Rightarrow>
      (case seg of (knot1, L0, L1) \<Rightarrow>
       let knot0 = knotPrev
       in if L0 < L1
          then (case pushSideBox (sideIndex (first bi)) uc0 (ilu - L1)
                       (shr knot0 (ilu - L1)) (shr knot1 (ilu - L1)) of
                  Inl err \<Rightarrow> Inl err
                | Inr box \<Rightarrow> Inr (knot1, refElts0 @ [L1] @ box, refElts1))
          else if L0 > L1
          then (let knot0L = (if \<not> orientPreserv then uc1 ! dir1 - knot1 else knot0);
                    knot1L = (if \<not> orientPreserv then uc1 ! dir1 - knot0 else knot1)
                in case pushSideBox (sideIndex (second bi)) uc1 (ilu - L0)
                       (shr knot0L (ilu - L0)) (shr knot1L (ilu - L0)) of
                  Inl err \<Rightarrow> Inl err
                | Inr box \<Rightarrow> Inr (knot1, refElts0, refElts1 @ [L0] @ box))
          else Inr (knot1, refElts0, refElts1)))"

fun emitAll2d ::
  "boundaryInterface \<Rightarrow> u32 \<Rightarrow> u32 list \<Rightarrow> u32 list \<Rightarrow> bool \<Rightarrow> nat \<Rightarrow> span list \<Rightarrow>
   u32 \<times> u32 list \<times> u32 list \<Rightarrow> error + (u32 \<times> u32 list \<times> u32 list)" where
  "emitAll2d bi ilu uc0 uc1 op dir1 [] st = Inr st"
| "emitAll2d bi ilu uc0 uc1 op dir1 (seg # segs) st =
     (case emitStep2d bi ilu uc0 uc1 op dir1 seg st of
        Inl err \<Rightarrow> Inl err
      | Inr st' \<Rightarrow> emitAll2d bi ilu uc0 uc1 op dir1 segs st')"

text \<open>The two sorted tables \<^verbatim>\<open>intfc0\<close> and \<^verbatim>\<open>intfc1\<close> (lines 484-534).\<close>

definition intfc0 :: "'b htreeApi \<Rightarrow> 'b list \<Rightarrow> boundaryInterface \<Rightarrow> span list" where
  "intfc0 api m_bases bi =
     (let bas0 = m_bases ! patch (first bi);
          dir0 = (direction (first bi) + 1) mod 2;
          idxExponent = indexLevelUse api m_bases bi - getMaxInsLevel api bas0
      in sortByColumn0 (spansOfBoxes dir0 idxExponent
           (getBoxesOnSide api bas0 (sideIndex (first bi)))))"

definition intfc1 :: "'b htreeApi \<Rightarrow> 'b list \<Rightarrow> boundaryInterface \<Rightarrow> span list" where
  "intfc1 api m_bases bi =
     (let bas1 = m_bases ! patch (second bi);
          dir0 = (direction (first bi) + 1) mod 2;
          orientPreserv = dirOrientation bi ! dir0;
          dir1 = (direction (second bi) + 1) mod 2;
          idxExponent = indexLevelUse api m_bases bi - getMaxInsLevel api bas1;
          rows = spansOfBoxes dir1 idxExponent (getBoxesOnSide api bas1 (sideIndex (second bi)))
      in sortByColumn0
           (if \<not> orientPreserv then flipSpans (upperCorn1 api 2 m_bases bi ! dir1) rows
            else rows))"

text \<open>The merged knot spans \<^verbatim>\<open>intfcU\<close>.\<close>

definition intfcU :: "'b htreeApi \<Rightarrow> 'b list \<Rightarrow> boundaryInterface \<Rightarrow> span list" where
  "intfcU api m_bases bi = mergeSpans (intfc0 api m_bases bi) (intfc1 api m_bases bi)"

text \<open>
  The requests collected by \<^verbatim>\<open>repairInterface2d\<close> before they are applied:
  \<open>(knot1, refElts0, refElts1)\<close>, or the failed assertion. Reading the last row of an
  empty table is \<open>IndexOutOfRange\<close>.
\<close>

definition findElements2d ::
  "'b htreeApi \<Rightarrow> 'b list \<Rightarrow> boundaryInterface \<Rightarrow> error + (u32 \<times> u32 list \<times> u32 list)" where
  "findElements2d api m_bases bi =
     (if \<not> (isHTensorBasis api 2 (m_bases ! patch (first bi)) \<and>
             isHTensorBasis api 2 (m_bases ! patch (second bi)))
      then Inl (AssertFailed ''Cannot cast basis as needed.'')
      else if intfc0 api m_bases bi = [] \<or> intfc1 api m_bases bi = [] then Inl IndexOutOfRange
      else if fst (snd (last (intfc0 api m_bases bi))) \<noteq> fst (snd (last (intfc1 api m_bases bi)))
      then Inl (AssertFailed '' Something wrong with interfaces! Mark 264'')
      else emitAll2d bi (indexLevelUse api m_bases bi) (upperCorn0 api 2 m_bases bi)
             (upperCorn1 api 2 m_bases bi)
             (dirOrientation bi ! ((direction (first bi) + 1) mod 2))
             ((direction (second bi) + 1) mod 2)
             (intfcU api m_bases bi) (0, [], []))"

text \<open>
  \<^verbatim>\<open>repairInterface2d\<close>: the requests are applied (lines 691-694); the result is the
  collection of bases after the call and the returned flag.
\<close>

definition repairInterface2d ::
  "'b htreeApi \<Rightarrow> 'b list \<Rightarrow> boundaryInterface \<Rightarrow> error + ('b list \<times> bool)" where
  "repairInterface2d api m_bases bi =
     (case findElements2d api m_bases bi of
        Inl err \<Rightarrow> Inl err
      | Inr (knot1, refElts0, refElts1) \<Rightarrow>
          (let m1 = (if length refElts0 > 0
                     then m_bases[patch (first bi) :=
                            refineElements api (m_bases ! patch (first bi)) refElts0]
                     else m_bases);
               m2 = (if length refElts1 > 0
                     then m1[patch (second bi) :=
                            refineElements api (m1 ! patch (second bi)) refElts1]
                     else m1)
           in Inr (m2, length refElts0 > 0 \<or> length refElts1 > 0)))"

subsection \<open>A concrete tree\<close>

text \<open>
  A basis given by the answers of its queries (the boxes per side index);
  \<open>refineElements\<close> records the requests it receives. The theorems below are evaluated
  on it.
\<close>

record demoTree =
  dIndexLevel :: u32
  dMaxInsLevel :: u32
  dUpperCorner :: "u32 list"
  dBoxes :: "(nat \<times> hbox list) list"
  dRefined :: "u32 list list"

definition demoApi :: "demoTree htreeApi" where
  "demoApi =
     \<lparr> isHTensorBasis = (\<lambda>d t. length (dUpperCorner t) = d),
       getIndexLevel = dIndexLevel,
       getMaxInsLevel = dMaxInsLevel,
       upperCorner = dUpperCorner,
       getBoxesOnSide = (\<lambda>t side. case map_of (dBoxes t) side of Some rows \<Rightarrow> rows | None \<Rightarrow> []),
       refineElements = (\<lambda>t r. t\<lparr>dRefined := dRefined t @ [r]\<rparr>) \<rparr>"

definition box :: "u32 list \<Rightarrow> u32 list \<Rightarrow> u32 \<Rightarrow> hbox" where
  "box l u v = \<lparr>lo = l, up = u, level = v\<rparr>"

text \<open>
  Two patches of a planar domain: the east side of patch 0 carries one box of level 2, the
  west side of patch 1 two boxes of level 3. All coordinates are on level 3.
\<close>

definition demoEast :: demoTree where
  "demoEast = \<lparr>dIndexLevel = 3, dMaxInsLevel = 3, dUpperCorner = [8, 8],
      dBoxes = [(2, [box [4, 0] [8, 8] 2])], dRefined = []\<rparr>"

definition demoWest :: demoTree where
  "demoWest = \<lparr>dIndexLevel = 3, dMaxInsLevel = 3, dUpperCorner = [8, 8],
      dBoxes = [(1, [box [0, 4] [4, 8] 3, box [0, 0] [4, 4] 3])], dRefined = []\<rparr>"

text \<open>A west side that already has the one box of level 2 of its neighbour.\<close>

definition demoWestSame :: demoTree where
  "demoWestSame = \<lparr>dIndexLevel = 3, dMaxInsLevel = 3, dUpperCorner = [8, 8],
      dBoxes = [(1, [box [0, 0] [4, 8] 2])], dRefined = []\<rparr>"

definition demoBi :: boundaryInterface where
  "demoBi = \<lparr>first = \<lparr>patch = 0, sideIndex = 2, direction = 0\<rparr>,
             second = \<lparr>patch = 1, sideIndex = 1, direction = 0\<rparr>,
             dirMap = [0, 1], dirOrientation = [True, True]\<rparr>"

text \<open>A patch whose tree stores its indices on level 2: the same east side as \<open>demoEast\<close>.\<close>

definition demoCoarse :: demoTree where
  "demoCoarse = \<lparr>dIndexLevel = 2, dMaxInsLevel = 2, dUpperCorner = [4, 4],
      dBoxes = [(2, [box [2, 0] [4, 4] 2])], dRefined = []\<rparr>"

text \<open>
  The same two patches seen from the other side, with the tangential axis reversed:
  the first side is the west side of patch 1, which carries a box of level 3 on
  \<open>[0,2]\<close> and a box of level 2 on \<open>[2,8]\<close>.
\<close>

definition demoWestMixed :: demoTree where
  "demoWestMixed = \<lparr>dIndexLevel = 3, dMaxInsLevel = 3, dUpperCorner = [8, 8],
      dBoxes = [(1, [box [0, 0] [4, 2] 3, box [0, 2] [4, 8] 2])], dRefined = []\<rparr>"

definition demoBiFlip :: boundaryInterface where
  "demoBiFlip = \<lparr>first = \<lparr>patch = 1, sideIndex = 1, direction = 0\<rparr>,
             second = \<lparr>patch = 0, sideIndex = 2, direction = 0\<rparr>,
             dirMap = [0, 1], dirOrientation = [True, False]\<rparr>"

text \<open>A west side whose only box ends at knot 4, half way along the interface.\<close>

definition demoWestShort :: demoTree where
  "demoWestShort = \<lparr>dIndexLevel = 3, dMaxInsLevel = 3, dUpperCorner = [8, 8],
      dBoxes = [(1, [box [0, 0] [4, 4] 2])], dRefined = []\<rparr>"

subsection \<open>The contract of the interface data\<close>

text \<open>
  \<^verbatim>\<open>dirMap\<close> and \<^verbatim>\<open>dirOrientation\<close> have \<open>d\<close> entries and \<^verbatim>\<open>dirMap\<close> is a permutation
  of the axes \<open>0, ..., d-1\<close>; a row of \<^verbatim>\<open>lo\<close> and \<^verbatim>\<open>up\<close> has \<open>d\<close> columns.
\<close>

definition wfOrient :: "nat \<Rightarrow> nat list \<Rightarrow> bool list \<Rightarrow> bool" where
  "wfOrient d dm dor \<longleftrightarrow>
     length dm = d \<and> length dor = d \<and> distinct dm \<and> (\<forall>j\<in>set dm. j < d)"

definition wfBox :: "nat \<Rightarrow> hbox \<Rightarrow> bool" where
  "wfBox d r \<longleftrightarrow> length (lo r) = d \<and> length (up r) = d"

text \<open>
  An index on the reference level that lies on the grid of a coarser level: with
  \<open>s = indexLevelUse - Luse\<close>, its \<open>s\<close> lowest bits are zero. The boxes of a tree and its
  upper corner lie on the grid of their level.
\<close>

definition alignedTo :: "u32 \<Rightarrow> u32 \<Rightarrow> bool" where
  "alignedTo s x \<longleftrightarrow> take_bit (unat s) x = 0"

section \<open>The pairwise overlap of the general-dimension path\<close>

lemma overlapsInner_eq:
  "overlapsInner a0 b0 a1 b1 r0 rs1 acc =
     acc @ map (overlapBox a0 b0 a1 b1 r0) (filter (boxesOverlap a0 b0 a1 b1 r0) rs1)"
  by (induction rs1 arbitrary: acc) simp_all

lemma overlapsOuter_eq:
  "overlapsOuter a0 b0 a1 b1 rs0 rs1 acc =
     acc @ concat (map (\<lambda>r0. map (overlapBox a0 b0 a1 b1 r0)
                                (filter (boxesOverlap a0 b0 a1 b1 r0) rs1)) rs0)"
  by (induction rs0 arbitrary: acc) (simp_all add: overlapsInner_eq)

lemma map_filter_concat:
  "map f (filter P xs) = concat (map (\<lambda>x. if P x then [f x] else []) xs)"
  by (induction xs) simp_all

text \<open>
  Claim C2. The two nested loops over the rows of both sides visit every pair
  \<open>(r0, r1)\<close> in order and push one entry for the pair exactly when, on both axes that
  span the interface (\<open>a\<close> and \<open>b\<close>), \<open>lo0 < up1\<close> and \<open>lo1 < up0\<close> hold strictly. The entry
  is \<open>[max lo_a, max lo_b, min up_a, min up_b, level0, level1]\<close>. A pair that only touches
  on an axis (an upper bound equal to the other box's lower bound) gives no entry. The
  merged mesh \<^verbatim>\<open>iU\<close> is the result of these loops on the normalised boxes of the first
  side and the normalised and mapped boxes of the second side.
\<close>

theorem pairwise_overlap_merge:
  "overlapsOuter a0 b0 a1 b1 rows0 rows1 [] =
     concat (map (\<lambda>r0. concat (map (\<lambda>r1.
       if lo r0 ! a0 < up r1 ! a1 \<and> lo r1 ! a1 < up r0 ! a0 \<and>
          lo r0 ! b0 < up r1 ! b1 \<and> lo r1 ! b1 < up r0 ! b0
       then [[max (lo r0 ! a0) (lo r1 ! a1), max (lo r0 ! b0) (lo r1 ! b1),
              min (up r0 ! a0) (up r1 ! a1), min (up r0 ! b0) (up r1 ! b1),
              level r0, level r1]]
       else []) rows1)) rows0)
   \<and> (up r0 ! a0 = lo r1 ! a1 \<or> up r1 ! a1 = lo r0 ! a0 \<or>
      up r0 ! b0 = lo r1 ! b1 \<or> up r1 ! b1 = lo r0 ! b0
      \<longrightarrow> overlapsOuter a0 b0 a1 b1 [r0] [r1] [] = [])
   \<and> (sideAxes0 d bi = (a0, b0, c0) \<and> sideAxes1 d bi = (a1, b1, c1)
      \<longrightarrow> iU api d m_bases bi =
            overlapsOuter a0 b0 a1 b1 (boxes0 api d m_bases bi) (boxes1 api d m_bases bi) [])"
proof (intro conjI)
  have "\<And>r0. map (overlapBox a0 b0 a1 b1 r0) (filter (boxesOverlap a0 b0 a1 b1 r0) rows1) =
     concat (map (\<lambda>r1.
       if lo r0 ! a0 < up r1 ! a1 \<and> lo r1 ! a1 < up r0 ! a0 \<and>
          lo r0 ! b0 < up r1 ! b1 \<and> lo r1 ! b1 < up r0 ! b0
       then [[max (lo r0 ! a0) (lo r1 ! a1), max (lo r0 ! b0) (lo r1 ! b1),
              min (up r0 ! a0) (up r1 ! a1), min (up r0 ! b0) (up r1 ! b1),
              level r0, level r1]]
       else []) rows1)"
    unfolding map_filter_concat
    by (rule arg_cong[where f = concat], rule map_cong) (auto simp: boxesOverlap_def overlapBox_def)
  then show "overlapsOuter a0 b0 a1 b1 rows0 rows1 [] =
     concat (map (\<lambda>r0. concat (map (\<lambda>r1.
       if lo r0 ! a0 < up r1 ! a1 \<and> lo r1 ! a1 < up r0 ! a0 \<and>
          lo r0 ! b0 < up r1 ! b1 \<and> lo r1 ! b1 < up r0 ! b0
       then [[max (lo r0 ! a0) (lo r1 ! a1), max (lo r0 ! b0) (lo r1 ! b1),
              min (up r0 ! a0) (up r1 ! a1), min (up r0 ! b0) (up r1 ! b1),
              level r0, level r1]]
       else []) rows1)) rows0)"
    by (simp add: overlapsOuter_eq)
next
  show "up r0 ! a0 = lo r1 ! a1 \<or> up r1 ! a1 = lo r0 ! a0 \<or>
      up r0 ! b0 = lo r1 ! b1 \<or> up r1 ! b1 = lo r0 ! b0
      \<longrightarrow> overlapsOuter a0 b0 a1 b1 [r0] [r1] [] = []"
    by (auto simp: boxesOverlap_def)
next
  show "sideAxes0 d bi = (a0, b0, c0) \<and> sideAxes1 d bi = (a1, b1, c1)
      \<longrightarrow> iU api d m_bases bi =
            overlapsOuter a0 b0 a1 b1 (boxes0 api d m_bases bi) (boxes1 api d m_bases bi) []"
    by (simp add: iU_def)
qed

text \<open>
  The boxes \<open>[0,2] \<times> [0,2]\<close> of level 1 and \<open>[1,3] \<times> [1,3]\<close> of level 2 give the one entry
  \<open>[1,2] \<times> [1,2]\<close> with levels \<open>(1, 2)\<close>; the box \<open>[2,4] \<times> [0,2]\<close> touches the first and
  gives none.
\<close>

theorem pairwise_overlap_merge_witness:
  "overlapsOuter 0 1 0 1 [box [0, 0, 0] [2, 2, 1] 1]
       [box [1, 1, 0] [3, 3, 1] 2, box [2, 0, 0] [4, 2, 1] 2] []
     = [[1, 1, 2, 2, 1, 2]]
   \<and> overlapsOuter 0 1 0 1 [box [0, 0, 0] [2, 2, 1] 1] [box [2, 0, 0] [4, 2, 1] 2] [] = []"
proof -
  have touch: "up (box [0, 0, 0] [2, 2, 1] 1) ! 0 = lo (box [2, 0, 0] [4, 2, 1] 2) ! 0 \<or>
      up (box [2, 0, 0] [4, 2, 1] 2) ! 0 = lo (box [0, 0, 0] [2, 2, 1] 1) ! 0 \<or>
      up (box [0, 0, 0] [2, 2, 1] 1) ! 1 = lo (box [2, 0, 0] [4, 2, 1] 2) ! 1 \<or>
      up (box [2, 0, 0] [4, 2, 1] 2) ! 1 = lo (box [0, 0, 0] [2, 2, 1] 1) ! 1"
    by (simp add: box_def)
  note t = pairwise_overlap_merge [of 0 1 0 1 "[box [0, 0, 0] [2, 2, 1] 1]"
      "[box [1, 1, 0] [3, 3, 1] 2, box [2, 0, 0] [4, 2, 1] 2]"
      "box [0, 0, 0] [2, 2, 1] 1" "box [2, 0, 0] [4, 2, 1] 2"]
  note a = t[THEN conjunct1]
  note b = t[THEN conjunct2, THEN conjunct1, THEN mp, OF touch]
  from a b show ?thesis by (simp add: box_def)
qed

section \<open>The sorted merge of the 2-D specialisation\<close>

text \<open>
  Claim C3. Both tables of \<^verbatim>\<open>repairInterface2d\<close> are sorted by their first column
  (the start knot), and \<^verbatim>\<open>intfcU\<close> is their merge. While both cursors stand on a row,
  one pass of the merge loop pushes the row (min of the two end knots, level on the
  first side, level on the second side), moves the first cursor when its end knot is
  the smaller or equal one and moves the second cursor when its end knot is the smaller
  or equal one: on a tie both move. The loop ends when either table is used up.
\<close>

theorem merge_two_cursors:
  "sorted (map fst (intfc0 api m_bases bi)) \<and> sorted (map fst (intfc1 api m_bases bi))
   \<and> intfcU api m_bases bi = mergeSpans (intfc0 api m_bases bi) (intfc1 api m_bases bi)
   \<and> mergeSpans ((s0, e0, l0) # r0) ((s1, e1, l1) # r1) =
       (min e0 e1, l0, l1) #
         mergeSpans (if e0 \<le> e1 then r0 else (s0, e0, l0) # r0)
                    (if e1 \<le> e0 then r1 else (s1, e1, l1) # r1)
   \<and> mergeSpans [] r1 = [] \<and> mergeSpans r0 [] = []"
proof -
  have a: "sorted (map fst (intfc0 api m_bases bi))"
    by (simp add: intfc0_def Let_def sortByColumn0_def)
  have b: "sorted (map fst (intfc1 api m_bases bi))"
    by (simp add: intfc1_def Let_def sortByColumn0_def)
  have c: "mergeSpans ((s0, e0, l0) # r0) ((s1, e1, l1) # r1) =
       (min e0 e1, l0, l1) #
         mergeSpans (if e0 \<le> e1 then r0 else (s0, e0, l0) # r0)
                    (if e1 \<le> e0 then r1 else (s1, e1, l1) # r1)"
    by (auto simp: min_def)
  have d: "mergeSpans r0 [] = []" by (cases r0) auto
  from a b c d show ?thesis by (simp add: intfcU_def)
qed

theorem merge_two_cursors_witness:
  "mergeSpans [(0, 8, 2)] [(0, 4, 3), (4, 8, 3)] = [(4, 2, 3), (8, 2, 3)]"
  using merge_two_cursors [of demoApi "[demoEast, demoWest]" demoBi 0 8 2 "[]" 0 4 3 "[(4, 8, 3)]"]
    merge_two_cursors [of demoApi "[demoEast, demoWest]" demoBi 0 8 2 "[]" 4 8 3 "[]"]
  by simp

section \<open>The dispatch on the dimension\<close>

text \<open>
  Claim C9. \<^verbatim>\<open>repairInterface\<close> fails with the assertion "wrong dimension" exactly when
  \<^verbatim>\<open>dim()\<close> is neither 2 nor 3, and the assertion at the head of
  \<^verbatim>\<open>repairInterfaceFindElements<d>\<close> fails exactly when \<open>d\<close> is neither 2 nor 3. A
  failed assertion returns no bases and no requests.
\<close>

theorem dispatch_on_dimension:
  "(repairInterface api dim m_bases bi = Inl (AssertFailed ''wrong dimension''))
     = (dim \<noteq> 2 \<and> dim \<noteq> 3)
   \<and> (repairInterfaceFindElements api d m_bases bi = Inl (AssertFailed ''Dimension must be 2 or 3.''))
     = (d \<noteq> 2 \<and> d \<noteq> 3)"
proof -
  have fe: "(repairInterfaceFindElements api d m_bases bi = Inl (AssertFailed ''Dimension must be 2 or 3.''))
     = (d \<noteq> 2 \<and> d \<noteq> 3)" for d
    by (simp add: repairInterfaceFindElements_def split: prod.splits)
  have ne: "repairInterfaceFindElements api d m_bases bi \<noteq> Inl (AssertFailed ''wrong dimension'')" for d
    by (simp add: repairInterfaceFindElements_def split: prod.splits)
  have "(repairInterface api dim m_bases bi = Inl (AssertFailed ''wrong dimension''))
     = (dim \<noteq> 2 \<and> dim \<noteq> 3)"
  proof (cases "dim = 2 \<or> dim = 3")
    case True
    show ?thesis
    proof (cases "repairInterfaceFindElements api dim m_bases bi")
      case (Inl e)
      with True ne[of dim] show ?thesis by (auto simp: repairInterface_def)
    next
      case (Inr x)
      with True show ?thesis
        by (cases x) (auto simp: repairInterface_def Let_def split: if_splits)
    qed
  next
    case False
    then show ?thesis by (simp add: repairInterface_def)
  qed
  with fe show ?thesis by simp
qed

theorem dispatch_on_dimension_witness:
  "repairInterface demoApi 4 [demoEast, demoWest] demoBi = Inl (AssertFailed ''wrong dimension'')
   \<and> repairInterface demoApi 2 [demoEast, demoWest] demoBi \<noteq> Inl (AssertFailed ''wrong dimension'')"
  using dispatch_on_dimension [of demoApi 4 "[demoEast, demoWest]" demoBi 4]
    dispatch_on_dimension [of demoApi 2 "[demoEast, demoWest]" demoBi 2]
  by simp

section \<open>Refinement is applied only to collected requests\<close>

lemma findElements_flag:
  "repairInterfaceFindElements api d m_bases bi = Inr (F, S, c) \<Longrightarrow> c = (F \<noteq> [] \<or> S \<noteq> [])"
  by (auto simp: repairInterfaceFindElements_def split: if_splits prod.splits)

lemma repairInterface_Inr:
  assumes "repairInterface api dim m_bases bi = Inr (m', changed)"
  obtains F S where "repairInterfaceFindElements api dim m_bases bi = Inr (F, S, changed)"
    and "changed = (F \<noteq> [] \<or> S \<noteq> [])"
    and "m' = (let m1 = (if F \<noteq> []
                         then m_bases[patch (first bi) :=
                                refineElements api (m_bases ! patch (first bi)) F]
                         else m_bases)
               in if S \<noteq> []
                  then m1[patch (second bi) := refineElements api (m1 ! patch (second bi)) S]
                  else m1)"
proof -
  from assms have dim: "dim = 2 \<or> dim = 3"
    by (auto simp: repairInterface_def split: if_splits)
  show thesis
  proof (cases "repairInterfaceFindElements api dim m_bases bi")
    case (Inl e)
    with assms dim show ?thesis by (auto simp: repairInterface_def)
  next
    case (Inr x)
    obtain F S c where x: "x = (F, S, c)" by (cases x)
    from Inr x have fl: "c = (F \<noteq> [] \<or> S \<noteq> [])" by (intro findElements_flag) simp
    from assms dim Inr x have c: "changed = c"
      by (auto simp: repairInterface_def Let_def split: if_splits)
    from assms dim Inr x fl have "m' = (let m1 = (if F \<noteq> []
                         then m_bases[patch (first bi) :=
                                refineElements api (m_bases ! patch (first bi)) F]
                         else m_bases)
               in if S \<noteq> []
                  then m1[patch (second bi) := refineElements api (m1 ! patch (second bi)) S]
                  else m1)"
      by (auto simp: repairInterface_def Let_def split: if_splits)
    with Inr x c fl that show ?thesis by blast
  qed
qed

lemma repairInterface2d_Inr:
  assumes "repairInterface2d api m_bases bi = Inr (m', changed)"
  obtains k F S where "findElements2d api m_bases bi = Inr (k, F, S)"
    and "changed = (F \<noteq> [] \<or> S \<noteq> [])"
    and "m' = (let m1 = (if F \<noteq> []
                         then m_bases[patch (first bi) :=
                                refineElements api (m_bases ! patch (first bi)) F]
                         else m_bases)
               in if S \<noteq> []
                  then m1[patch (second bi) := refineElements api (m1 ! patch (second bi)) S]
                  else m1)"
proof (cases "findElements2d api m_bases bi")
  case (Inl e)
  with assms show ?thesis by (simp add: repairInterface2d_def)
next
  case (Inr x)
  obtain k F S where x: "x = (k, F, S)" by (cases x)
  from assms Inr x have "changed = (F \<noteq> [] \<or> S \<noteq> [])"
    by (auto simp: repairInterface2d_def Let_def)
  moreover from assms Inr x have "m' = (let m1 = (if F \<noteq> []
                         then m_bases[patch (first bi) :=
                                refineElements api (m_bases ! patch (first bi)) F]
                         else m_bases)
               in if S \<noteq> []
                  then m1[patch (second bi) := refineElements api (m1 ! patch (second bi)) S]
                  else m1)"
    by (auto simp: repairInterface2d_def Let_def)
  ultimately show ?thesis using Inr x that by blast
qed

text \<open>
  Claim C10. When \<^verbatim>\<open>repairInterface\<close> returns, its flag is true exactly when one of
  the two request vectors is not empty, and the bases after the call are the bases
  before it with \<^verbatim>\<open>refineElements\<close> applied to the first patch if \<^verbatim>\<open>refEltsFirst\<close> is
  not empty and to the second patch if \<^verbatim>\<open>refEltsSecond\<close> is not empty; when the flag
  is false the bases are unchanged. The same holds for \<^verbatim>\<open>repairInterface2d\<close>.
\<close>

theorem refine_only_on_requests:
  "(repairInterface api dim m_bases bi = Inr (m', changed) \<longrightarrow>
      (\<exists>F S. repairInterfaceFindElements api dim m_bases bi = Inr (F, S, changed)
         \<and> changed = (F \<noteq> [] \<or> S \<noteq> [])
         \<and> m' = (let m1 = (if F \<noteq> []
                            then m_bases[patch (first bi) :=
                                   refineElements api (m_bases ! patch (first bi)) F]
                            else m_bases)
                  in if S \<noteq> []
                     then m1[patch (second bi) := refineElements api (m1 ! patch (second bi)) S]
                     else m1))
      \<and> (\<not> changed \<longrightarrow> m' = m_bases))
   \<and> (repairInterface2d api m_bases bi = Inr (m2', changed2) \<longrightarrow>
      (\<exists>k F S. findElements2d api m_bases bi = Inr (k, F, S)
         \<and> changed2 = (F \<noteq> [] \<or> S \<noteq> [])
         \<and> m2' = (let m1 = (if F \<noteq> []
                            then m_bases[patch (first bi) :=
                                   refineElements api (m_bases ! patch (first bi)) F]
                            else m_bases)
                  in if S \<noteq> []
                     then m1[patch (second bi) := refineElements api (m1 ! patch (second bi)) S]
                     else m1))
      \<and> (\<not> changed2 \<longrightarrow> m2' = m_bases))"
proof (intro conjI impI)
  assume a: "repairInterface api dim m_bases bi = Inr (m', changed)"
  from a show "\<exists>F S. repairInterfaceFindElements api dim m_bases bi = Inr (F, S, changed)
         \<and> changed = (F \<noteq> [] \<or> S \<noteq> [])
         \<and> m' = (let m1 = (if F \<noteq> []
                            then m_bases[patch (first bi) :=
                                   refineElements api (m_bases ! patch (first bi)) F]
                            else m_bases)
                  in if S \<noteq> []
                     then m1[patch (second bi) := refineElements api (m1 ! patch (second bi)) S]
                     else m1)"
    by (rule repairInterface_Inr) blast
  assume "\<not> changed"
  with a show "m' = m_bases"
    by (elim repairInterface_Inr) simp
next
  assume a: "repairInterface2d api m_bases bi = Inr (m2', changed2)"
  from a show "\<exists>k F S. findElements2d api m_bases bi = Inr (k, F, S)
         \<and> changed2 = (F \<noteq> [] \<or> S \<noteq> [])
         \<and> m2' = (let m1 = (if F \<noteq> []
                            then m_bases[patch (first bi) :=
                                   refineElements api (m_bases ! patch (first bi)) F]
                            else m_bases)
                  in if S \<noteq> []
                     then m1[patch (second bi) := refineElements api (m1 ! patch (second bi)) S]
                     else m1)"
    by (rule repairInterface2d_Inr) blast
  assume "\<not> changed2"
  with a show "m2' = m_bases"
    by (elim repairInterface2d_Inr) simp
qed

theorem refine_only_on_requests_witness:
  "repairInterface demoApi 2 [demoEast, demoWestSame] demoBi = Inr ([demoEast, demoWestSame], False)
   \<and> repairInterface2d demoApi [demoEast, demoWestSame] demoBi
       = Inr ([demoEast, demoWestSame], False)
   \<and> repairInterface demoApi 2 [demoEast, demoWest] demoBi
       = Inr ([demoEast\<lparr>dRefined := [[3, 7, 4, 8, 8, 3, 7, 0, 8, 4]]\<rparr>, demoWest], True)"
proof -
  have a: "repairInterface demoApi 2 [demoEast, demoWestSame] demoBi
             = Inr ([demoEast, demoWestSame], False)"
    by code_simp
  have b: "repairInterface2d demoApi [demoEast, demoWestSame] demoBi
             = Inr ([demoEast, demoWestSame], False)"
    by code_simp
  have c: "repairInterface demoApi 2 [demoEast, demoWest] demoBi
       = Inr ([demoEast\<lparr>dRefined := [[3, 7, 4, 8, 8, 3, 7, 0, 8, 4]]\<rparr>, demoWest], True)"
    by code_simp
  from a b c refine_only_on_requests [of demoApi 2 "[demoEast, demoWestSame]" demoBi
      "[demoEast, demoWestSame]" False "[demoEast, demoWestSame]" False]
  show ?thesis by simp
qed

section \<open>The loops over the axes\<close>

text \<open>
  The loops over \<open>j\<close> and \<open>jj\<close> write one column per pass. When \<^verbatim>\<open>dirMap\<close> is a
  permutation every column is written exactly once, so the value of a column after the
  loop is the value its own pass gave it.
\<close>

lemma shl_0 [simp]: "shl x 0 = x" by (simp add: shl_def)
lemma shr_0 [simp]: "shr x 0 = x" by (simp add: shr_def)

lemma wfOrient_surj:
  assumes "wfOrient d dm dor" "j < d"
  shows "\<exists>jj<d. dm ! jj = j"
proof -
  from assms have sub: "set dm \<subseteq> {..<d}" and card: "card (set dm) = d"
    by (auto simp: wfOrient_def distinct_card)
  have "set dm = {..<d}"
    by (rule card_subset_eq) (use sub card in auto)
  with assms have "j \<in> set dm" by simp
  then obtain jj where "jj < length dm" "dm ! jj = j" by (auto simp: in_set_conv_nth)
  with assms show ?thesis by (auto simp: wfOrient_def)
qed

lemma wfOrient_inj:
  "wfOrient d dm dor \<Longrightarrow> jj < d \<Longrightarrow> kk < d \<Longrightarrow> dm ! jj = dm ! kk \<Longrightarrow> jj = kk"
  by (auto simp: wfOrient_def nth_eq_iff_index_eq)

lemma wfOrient_distinct_upt:
  "wfOrient d dm dor \<Longrightarrow> distinct (map ((!) dm) [0..<d])"
  by (metis map_nth wfOrient_def)

lemma update_map_take:
  "n < length xs \<Longrightarrow>
   (map f (take n xs) @ drop n xs)[n := f (xs ! n)] = map f (take (Suc n) xs) @ drop (Suc n) xs"
  by (auto intro!: nth_equalityI simp: nth_append nth_list_update less_Suc_eq)

lemma fold_update_upt:
  "n \<le> length v \<Longrightarrow> fold (\<lambda>i w. w[i := f (w ! i)]) [0..<n] v = map f (take n v) @ drop n v"
proof (induction n)
  case 0
  then show ?case by simp
next
  case (Suc n)
  then have n: "n < length v" by simp
  with Suc show ?case
    by (simp add: update_map_take nth_append)
qed

lemma scaleCorner_map: "length v = d \<Longrightarrow> scaleCorner d k v = map (\<lambda>x. shl x k) v"
  unfolding scaleCorner_def
  by (simp add: fold_update_upt[where f = "\<lambda>x. shl x k"])

lemma scaleBox_fold:
  "n \<le> length (lo r) \<Longrightarrow> n \<le> length (up r) \<Longrightarrow>
   fold (scaleBoxStep e) [0..<n] r =
     r\<lparr>lo := map (\<lambda>x. shl x e) (take n (lo r)) @ drop n (lo r),
       up := map (\<lambda>x. shl x e) (take n (up r)) @ drop n (up r)\<rparr>"
proof (induction n)
  case 0
  then show ?case by simp
next
  case (Suc n)
  then have n: "n < length (lo r)" "n < length (up r)" by simp_all
  with Suc show ?case
    by (simp add: scaleBoxStep_def nth_append update_map_take[where f = "\<lambda>x. shl x e"])
qed

lemma scaleBox_map:
  "wfBox d r \<Longrightarrow> scaleBox d e r = r\<lparr>lo := map (\<lambda>x. shl x e) (lo r), up := map (\<lambda>x. shl x e) (up r)\<rparr>"
  by (simp add: scaleBox_def scaleBox_fold wfBox_def)

lemma lo_mapBoxStep:
  "lo (mapBoxStep dm dor uc1 e jj r) =
     (lo r)[dm ! jj := (if dor ! jj then shl (lo r ! (dm ! jj)) e
                        else uc1 ! (dm ! jj) - shl (up r ! (dm ! jj)) e)]"
  by (simp add: mapBoxStep_def Let_def)

lemma up_mapBoxStep:
  "up (mapBoxStep dm dor uc1 e jj r) =
     (up r)[dm ! jj := (if dor ! jj then shl (up r ! (dm ! jj)) e
                        else uc1 ! (dm ! jj) - shl (lo r ! (dm ! jj)) e)]"
  by (simp add: mapBoxStep_def Let_def)

lemma level_mapBoxStep: "level (mapBoxStep dm dor uc1 e jj r) = level r"
  by (simp add: mapBoxStep_def Let_def)

lemma mapBox_fold_length:
  "length (lo (fold (mapBoxStep dm dor uc1 e) js r)) = length (lo r) \<and>
   length (up (fold (mapBoxStep dm dor uc1 e) js r)) = length (up r) \<and>
   level (fold (mapBoxStep dm dor uc1 e) js r) = level r"
  by (induction js arbitrary: r) (simp_all add: lo_mapBoxStep up_mapBoxStep level_mapBoxStep)

lemma mapBox_fold_other:
  "j \<notin> (!) dm ` set js \<Longrightarrow>
   lo (fold (mapBoxStep dm dor uc1 e) js r) ! j = lo r ! j \<and>
   up (fold (mapBoxStep dm dor uc1 e) js r) ! j = up r ! j"
  by (induction js arbitrary: r) (auto simp: lo_mapBoxStep up_mapBoxStep)

lemma mapBox_fold_hit:
  "distinct (map ((!) dm) js) \<Longrightarrow> jj \<in> set js \<Longrightarrow>
   dm ! jj < length (lo r) \<Longrightarrow> dm ! jj < length (up r) \<Longrightarrow>
   lo (fold (mapBoxStep dm dor uc1 e) js r) ! (dm ! jj) =
     (if dor ! jj then shl (lo r ! (dm ! jj)) e else uc1 ! (dm ! jj) - shl (up r ! (dm ! jj)) e) \<and>
   up (fold (mapBoxStep dm dor uc1 e) js r) ! (dm ! jj) =
     (if dor ! jj then shl (up r ! (dm ! jj)) e else uc1 ! (dm ! jj) - shl (lo r ! (dm ! jj)) e)"
proof (induction js arbitrary: r)
  case Nil
  then show ?case by simp
next
  case (Cons x xs)
  show ?case
  proof (cases "jj = x")
    case True
    from Cons.prems have "dm ! x \<notin> (!) dm ` set xs" by auto
    from mapBox_fold_other[OF this, of dor uc1 e "mapBoxStep dm dor uc1 e x r"] True Cons.prems
    show ?thesis by (simp add: lo_mapBoxStep up_mapBoxStep)
  next
    case False
    with Cons.prems have in_xs: "jj \<in> set xs" and ne: "dm ! x \<noteq> dm ! jj" by auto
    from Cons.prems have d: "distinct (map ((!) dm) xs)" by simp
    from Cons.IH[OF d in_xs, of "mapBoxStep dm dor uc1 e x r"] Cons.prems ne
    show ?thesis by (simp add: lo_mapBoxStep up_mapBoxStep)
  qed
qed

lemma mapBox_nth:
  assumes "wfOrient d dm dor" "wfBox d r" "jj < d"
  shows "lo (mapBox d dm dor uc1 e r) ! (dm ! jj) =
     (if dor ! jj then shl (lo r ! (dm ! jj)) e else uc1 ! (dm ! jj) - shl (up r ! (dm ! jj)) e)"
    and "up (mapBox d dm dor uc1 e r) ! (dm ! jj) =
     (if dor ! jj then shl (up r ! (dm ! jj)) e else uc1 ! (dm ! jj) - shl (lo r ! (dm ! jj)) e)"
proof -
  from assms have "dm ! jj < d" by (auto simp: wfOrient_def)
  with assms have b: "dm ! jj < length (lo r)" "dm ! jj < length (up r)" by (auto simp: wfBox_def)
  from assms have jj: "jj \<in> set [0..<d]" by simp
  from mapBox_fold_hit[OF wfOrient_distinct_upt[OF assms(1)] jj b, of dor uc1 e]
  show "lo (mapBox d dm dor uc1 e r) ! (dm ! jj) =
     (if dor ! jj then shl (lo r ! (dm ! jj)) e else uc1 ! (dm ! jj) - shl (up r ! (dm ! jj)) e)"
    and "up (mapBox d dm dor uc1 e r) ! (dm ! jj) =
     (if dor ! jj then shl (up r ! (dm ! jj)) e else uc1 ! (dm ! jj) - shl (lo r ! (dm ! jj)) e)"
    by (simp_all add: mapBox_def)
qed

lemma mapBox_wf: "wfBox d (mapBox d' dm dor uc1 e r) = wfBox d r"
  by (simp add: wfBox_def mapBox_def mapBox_fold_length)

lemma mapBox_level: "level (mapBox d dm dor uc1 e r) = level r"
  by (simp add: mapBox_def mapBox_fold_length)

lemma hbox_eqI:
  "lo r = lo r' \<Longrightarrow> up r = up r' \<Longrightarrow> level r = level r' \<Longrightarrow> (r :: hbox) = r'"
  by simp

lemma mapBox_scale_first:
  assumes "wfOrient d dm dor" "wfBox d r"
  shows "mapBox d dm dor uc1 e r = mapBox d dm dor uc1 0 (scaleBox d e r)"
proof (rule hbox_eqI)
  let ?s = "scaleBox d e r"
  have s: "?s = r\<lparr>lo := map (\<lambda>x. shl x e) (lo r), up := map (\<lambda>x. shl x e) (up r)\<rparr>"
    using assms by (simp add: scaleBox_map)
  then have wfs: "wfBox d ?s" using assms by (simp add: wfBox_def)
  have len: "length (lo r) = d" "length (up r) = d" using assms by (simp_all add: wfBox_def)
  show "lo (mapBox d dm dor uc1 e r) = lo (mapBox d dm dor uc1 0 ?s)"
  proof (rule nth_equalityI)
    show "length (lo (mapBox d dm dor uc1 e r)) = length (lo (mapBox d dm dor uc1 0 ?s))"
      using len by (simp add: mapBox_def mapBox_fold_length s)
    fix j assume "j < length (lo (mapBox d dm dor uc1 e r))"
    then have "j < d" using len by (simp add: mapBox_def mapBox_fold_length)
    then obtain jj where jj: "jj < d" "dm ! jj = j" using wfOrient_surj[OF assms(1)] by blast
    from mapBox_nth(1)[OF assms(1) assms(2) jj(1), of uc1 e]
         mapBox_nth(1)[OF assms(1) wfs jj(1), of uc1 0] jj \<open>j < d\<close> len
    show "lo (mapBox d dm dor uc1 e r) ! j = lo (mapBox d dm dor uc1 0 ?s) ! j"
      by (simp add: s)
  qed
  show "up (mapBox d dm dor uc1 e r) = up (mapBox d dm dor uc1 0 ?s)"
  proof (rule nth_equalityI)
    show "length (up (mapBox d dm dor uc1 e r)) = length (up (mapBox d dm dor uc1 0 ?s))"
      using len by (simp add: mapBox_def mapBox_fold_length s)
    fix j assume "j < length (up (mapBox d dm dor uc1 e r))"
    then have "j < d" using len by (simp add: mapBox_def mapBox_fold_length)
    then obtain jj where jj: "jj < d" "dm ! jj = j" using wfOrient_surj[OF assms(1)] by blast
    from mapBox_nth(2)[OF assms(1) assms(2) jj(1), of uc1 e]
         mapBox_nth(2)[OF assms(1) wfs jj(1), of uc1 0] jj \<open>j < d\<close> len
    show "up (mapBox d dm dor uc1 e r) ! j = up (mapBox d dm dor uc1 0 ?s) ! j"
      by (simp add: s)
  qed
  show "level (mapBox d dm dor uc1 e r) = level (mapBox d dm dor uc1 0 ?s)"
    by (simp add: mapBox_level s)
qed

lemma unflip_fold_length:
  "length (fold (unflipStep d dm dor uc1 s c) js tv) = length tv"
  by (induction js arbitrary: tv) (simp_all add: unflipStep_def Let_def)

lemma unflip_fold_other:
  "\<forall>jj\<in>set js. k \<noteq> 1 + dm ! jj \<and> k \<noteq> 1 + d + dm ! jj \<Longrightarrow>
   fold (unflipStep d dm dor uc1 s c) js tv ! k = tv ! k"
  by (induction js arbitrary: tv) (simp_all add: unflipStep_def Let_def)

lemma unflipStep_hit:
  "dm ! jj < d \<Longrightarrow> 1 + d + dm ! jj < length tv \<Longrightarrow>
   unflipStep d dm dor uc1 s c jj tv ! (1 + dm ! jj) =
     (if dm ! jj \<noteq> c \<and> \<not> dor ! jj then shr (uc1 ! (dm ! jj)) s - tv ! (1 + d + dm ! jj)
      else tv ! (1 + dm ! jj)) \<and>
   unflipStep d dm dor uc1 s c jj tv ! (1 + d + dm ! jj) =
     (if dm ! jj \<noteq> c \<and> \<not> dor ! jj then shr (uc1 ! (dm ! jj)) s - tv ! (1 + dm ! jj)
      else tv ! (1 + d + dm ! jj))"
  by (simp add: unflipStep_def Let_def)

lemma unflipStep_miss:
  "k \<noteq> 1 + dm ! jj \<Longrightarrow> k \<noteq> 1 + d + dm ! jj \<Longrightarrow>
   unflipStep d dm dor uc1 s c jj tv ! k = tv ! k"
  by (simp add: unflipStep_def Let_def)

lemma unflipStep_length: "length (unflipStep d dm dor uc1 s c jj tv) = length tv"
  by (simp add: unflipStep_def Let_def)

lemma unflip_fold_hit:
  "distinct (map ((!) dm) js) \<Longrightarrow> \<forall>kk\<in>set js. dm ! kk < d \<Longrightarrow> jj \<in> set js \<Longrightarrow>
   1 + d + dm ! jj < length tv \<Longrightarrow>
   fold (unflipStep d dm dor uc1 s c) js tv ! (1 + dm ! jj) =
     (if dm ! jj \<noteq> c \<and> \<not> dor ! jj then shr (uc1 ! (dm ! jj)) s - tv ! (1 + d + dm ! jj)
      else tv ! (1 + dm ! jj)) \<and>
   fold (unflipStep d dm dor uc1 s c) js tv ! (1 + d + dm ! jj) =
     (if dm ! jj \<noteq> c \<and> \<not> dor ! jj then shr (uc1 ! (dm ! jj)) s - tv ! (1 + dm ! jj)
      else tv ! (1 + d + dm ! jj))"
proof (induction js arbitrary: tv)
  case Nil
  then show ?case by simp
next
  case (Cons x xs)
  from Cons.prems have jd: "dm ! jj < d" by auto
  show ?case
  proof (cases "jj = x")
    case True
    from Cons.prems have nin: "dm ! x \<notin> (!) dm ` set xs" and lt: "\<forall>kk\<in>set xs. dm ! kk < d"
      by auto
    from nin lt jd True
    have o1: "\<forall>kk\<in>set xs. 1 + dm ! x \<noteq> 1 + dm ! kk \<and> 1 + dm ! x \<noteq> 1 + d + dm ! kk"
      and o2: "\<forall>kk\<in>set xs. 1 + d + dm ! x \<noteq> 1 + dm ! kk \<and> 1 + d + dm ! x \<noteq> 1 + d + dm ! kk"
      by auto
    have len: "1 + d + dm ! x < length tv" using Cons.prems(4) True by simp
    have dx: "dm ! x < d" using jd True by simp
    have f1: "fold (unflipStep d dm dor uc1 s c) xs (unflipStep d dm dor uc1 s c x tv) ! (1 + dm ! x)
               = unflipStep d dm dor uc1 s c x tv ! (1 + dm ! x)"
      by (rule unflip_fold_other[OF o1])
    have f2: "fold (unflipStep d dm dor uc1 s c) xs (unflipStep d dm dor uc1 s c x tv) ! (1 + d + dm ! x)
               = unflipStep d dm dor uc1 s c x tv ! (1 + d + dm ! x)"
      by (rule unflip_fold_other[OF o2])
    from unflipStep_hit[OF dx len, of dor uc1 s c]
    show ?thesis unfolding True by (simp only: fold.simps comp_apply f1 f2)
  next
    case False
    with Cons.prems have in_xs: "jj \<in> set xs" and ne: "dm ! x \<noteq> dm ! jj" by auto
    from Cons.prems have dx: "dm ! x < d" by auto
    from Cons.prems have d: "distinct (map ((!) dm) xs)" and lt: "\<forall>kk\<in>set xs. dm ! kk < d"
      by auto
    from ne jd dx have m1: "1 + dm ! jj \<noteq> 1 + dm ! x" "1 + dm ! jj \<noteq> 1 + d + dm ! x"
      and m2: "1 + d + dm ! jj \<noteq> 1 + dm ! x" "1 + d + dm ! jj \<noteq> 1 + d + dm ! x"
      by auto
    from Cons.prems(4)
    have len: "1 + d + dm ! jj < length (unflipStep d dm dor uc1 s c x tv)"
      by (simp add: unflipStep_length)
    have e1: "unflipStep d dm dor uc1 s c x tv ! (1 + dm ! jj) = tv ! (1 + dm ! jj)"
      by (rule unflipStep_miss[OF m1])
    have e2: "unflipStep d dm dor uc1 s c x tv ! (1 + d + dm ! jj) = tv ! (1 + d + dm ! jj)"
      by (rule unflipStep_miss[OF m2])
    from Cons.IH[OF d lt in_xs len]
    show ?thesis by (simp only: fold.simps comp_apply e1 e2)
  qed
qed

lemma unflip_nth:
  assumes "wfOrient d dm dor" "jj < d" "length tv = 1 + 2 * d"
  shows "unflip d dm dor uc1 s c tv ! (1 + dm ! jj) =
     (if dm ! jj \<noteq> c \<and> \<not> dor ! jj then shr (uc1 ! (dm ! jj)) s - tv ! (1 + d + dm ! jj)
      else tv ! (1 + dm ! jj))"
    and "unflip d dm dor uc1 s c tv ! (1 + d + dm ! jj) =
     (if dm ! jj \<noteq> c \<and> \<not> dor ! jj then shr (uc1 ! (dm ! jj)) s - tv ! (1 + dm ! jj)
      else tv ! (1 + d + dm ! jj))"
proof -
  from assms have lt: "\<forall>kk\<in>set [0..<d]. dm ! kk < d" by (auto simp: wfOrient_def)
  with assms have len: "1 + d + dm ! jj < length tv" by auto
  from assms have jj: "jj \<in> set [0..<d]" by simp
  from unflip_fold_hit[OF wfOrient_distinct_upt[OF assms(1)] lt jj len, of dor uc1 s c]
  show "unflip d dm dor uc1 s c tv ! (1 + dm ! jj) =
     (if dm ! jj \<noteq> c \<and> \<not> dor ! jj then shr (uc1 ! (dm ! jj)) s - tv ! (1 + d + dm ! jj)
      else tv ! (1 + dm ! jj))"
    and "unflip d dm dor uc1 s c tv ! (1 + d + dm ! jj) =
     (if dm ! jj \<noteq> c \<and> \<not> dor ! jj then shr (uc1 ! (dm ! jj)) s - tv ! (1 + dm ! jj)
      else tv ! (1 + d + dm ! jj))"
    by (simp_all add: unflip_def)
qed

lemma unflip_length: "length (unflip d dm dor uc1 s c tv) = length tv"
  by (simp add: unflip_def unflip_fold_length)

lemma unflip_head: "unflip d dm dor uc1 s c tv ! 0 = tv ! 0"
  by (simp add: unflip_def unflip_fold_other)

lemma sideAxes0_props:
  assumes "d = 2 \<or> d = 3" "direction (first bi) < d" "sideAxes0 d bi = (a0, b0, c0)"
  shows "a0 < d" "c0 < d" "a0 \<noteq> c0" "c0 = direction (first bi)"
    "d = 3 \<longrightarrow> b0 < d \<and> b0 \<noteq> a0 \<and> b0 \<noteq> c0" "d = 2 \<longrightarrow> b0 = a0"
  using assms by (auto simp: sideAxes0_def spanDirs_def split: if_splits)

lemma sideAxes1_props:
  assumes d: "d = 2 \<or> d = 3" and dir: "direction (first bi) < d"
    and wf: "wfOrient d (dirMap bi) (dirOrientation bi)"
    and ax0: "sideAxes0 d bi = (a0, b0, c0)" and ax1: "sideAxes1 d bi = (a1, b1, c1)"
  shows "a1 = dirMap bi ! a0" "b1 = dirMap bi ! b0" "c1 = dirMap bi ! c0"
    "a1 < d" "c1 < d" "a1 \<noteq> c1"
    "d = 3 \<longrightarrow> b1 < d \<and> b1 \<noteq> a1 \<and> b1 \<noteq> c1"
proof -
  note p = sideAxes0_props[OF d dir ax0]
  show e: "a1 = dirMap bi ! a0" "b1 = dirMap bi ! b0" "c1 = dirMap bi ! c0"
    using ax0 ax1 by (simp_all add: sideAxes1_def)
  have lt: "\<And>x. x < d \<Longrightarrow> dirMap bi ! x < d" using wf by (auto simp: wfOrient_def)
  show "a1 < d" "c1 < d" using e p lt by auto
  show "a1 \<noteq> c1" using e p wfOrient_inj[OF wf, of a0 c0] by auto
  show "d = 3 \<longrightarrow> b1 < d \<and> b1 \<noteq> a1 \<and> b1 \<noteq> c1"
    using e p lt wfOrient_inj[OF wf, of b0 a0] wfOrient_inj[OF wf, of b0 c0] by auto
qed

lemma fillBox_length: "length (fillBox d ilu Luse a b c idx uc seg tv) = length tv"
  by (simp add: fillBox_def Let_def)

lemma fillBox_nth:
  assumes "d = 2 \<or> d = 3" "a < d" "c < d" "a \<noteq> c" "d = 3 \<longrightarrow> b < d \<and> b \<noteq> a \<and> b \<noteq> c"
    "length tv = 1 + 2 * d"
  shows "fillBox d ilu Luse a b c idx uc seg tv ! 0 = Luse"
    and "fillBox d ilu Luse a b c idx uc seg tv ! (1 + a) = shr (seg ! 0) (ilu - Luse)"
    and "fillBox d ilu Luse a b c idx uc seg tv ! (1 + d + a) = shr (seg ! 2) (ilu - Luse)"
    and "d = 3 \<Longrightarrow> fillBox d ilu Luse a b c idx uc seg tv ! (1 + b) = shr (seg ! 1) (ilu - Luse)"
    and "d = 3 \<Longrightarrow> fillBox d ilu Luse a b c idx uc seg tv ! (1 + d + b) = shr (seg ! 3) (ilu - Luse)"
    and "fillBox d ilu Luse a b c idx uc seg tv ! (1 + c) =
           (if idx mod 2 = 1 then 0 else shr (uc ! c) (ilu - Luse) - 1)"
    and "fillBox d ilu Luse a b c idx uc seg tv ! (1 + d + c) =
           (if idx mod 2 = 1 then 1 else shr (uc ! c) (ilu - Luse))"
  using assms by (auto simp: fillBox_def Let_def nth_list_update)

section \<open>Level normalisation\<close>

text \<open>
  Claim C7. The reference level is the maximum of the two index levels. Every entry of
  the upper corner of tree \<open>i\<close> is shifted left by \<open>Lu - Li\<close>, which leaves it unchanged
  when \<open>Lu = Li\<close>. Every coordinate of a box on the side of tree \<open>i\<close> is shifted left by
  \<open>Lu - Mi\<close>, with \<open>Mi\<close> the maximal inserted level: the boxes of the first side are the
  shifted boxes, the boxes of the second side are the shifted boxes after the orientation
  mapping, and the tables of the 2-D function hold the shifted start and end knots. The
  shift \<open>shl x k\<close> is \<open>x << k\<close>.
\<close>

theorem level_normalisation:
  assumes uc0: "length (upperCorner api (m_bases ! patch (first bi))) = d"
      and uc1: "length (upperCorner api (m_bases ! patch (second bi))) = d"
      and b0: "\<forall>r\<in>set (getBoxesOnSide api (m_bases ! patch (first bi)) (sideIndex (first bi))). wfBox d r"
      and b1: "\<forall>r\<in>set (getBoxesOnSide api (m_bases ! patch (second bi)) (sideIndex (second bi))). wfBox d r"
      and wf: "wfOrient d (dirMap bi) (dirOrientation bi)"
  shows "(let bas0 = m_bases ! patch (first bi); bas1 = m_bases ! patch (second bi);
              Lu = indexLevelUse api m_bases bi;
              L0 = getIndexLevel api bas0; L1 = getIndexLevel api bas1;
              M0 = getMaxInsLevel api bas0; M1 = getMaxInsLevel api bas1;
              rows0 = getBoxesOnSide api bas0 (sideIndex (first bi));
              rows1 = getBoxesOnSide api bas1 (sideIndex (second bi));
              dir0 = (direction (first bi) + 1) mod 2;
              dir1 = (direction (second bi) + 1) mod 2
          in Lu = max L0 L1
           \<and> upperCorn0 api d m_bases bi = map (\<lambda>x. shl x (Lu - L0)) (upperCorner api bas0)
           \<and> upperCorn1 api d m_bases bi = map (\<lambda>x. shl x (Lu - L1)) (upperCorner api bas1)
           \<and> (Lu = L0 \<longrightarrow> upperCorn0 api d m_bases bi = upperCorner api bas0)
           \<and> (Lu = L1 \<longrightarrow> upperCorn1 api d m_bases bi = upperCorner api bas1)
           \<and> boxes0 api d m_bases bi =
               map (\<lambda>r. r\<lparr>lo := map (\<lambda>x. shl x (Lu - M0)) (lo r),
                          up := map (\<lambda>x. shl x (Lu - M0)) (up r)\<rparr>) rows0
           \<and> boxes1 api d m_bases bi =
               map (\<lambda>r. mapBox d (dirMap bi) (dirOrientation bi) (upperCorn1 api d m_bases bi) 0
                          (r\<lparr>lo := map (\<lambda>x. shl x (Lu - M1)) (lo r),
                             up := map (\<lambda>x. shl x (Lu - M1)) (up r)\<rparr>)) rows1
           \<and> intfc0 api m_bases bi =
               sortByColumn0 (map (\<lambda>r. (shl (lo r ! dir0) (Lu - M0), shl (up r ! dir0) (Lu - M0),
                                         level r)) rows0)
           \<and> intfc1 api m_bases bi =
               sortByColumn0
                 ((if dirOrientation bi ! dir0 then (\<lambda>rows. rows)
                   else flipSpans (upperCorn1 api 2 m_bases bi ! dir1))
                  (map (\<lambda>r. (shl (lo r ! dir1) (Lu - M1), shl (up r ! dir1) (Lu - M1),
                              level r)) rows1))
           \<and> shl x 0 = x \<and> shl x k = push_bit (unat k) x)"
proof -
  have lu: "indexLevelUse api m_bases bi =
        max (getIndexLevel api (m_bases ! patch (first bi)))
            (getIndexLevel api (m_bases ! patch (second bi)))"
    by (auto simp: indexLevelUse_def Let_def max_def)
  have c0: "upperCorn0 api d m_bases bi =
      map (\<lambda>x. shl x (indexLevelUse api m_bases bi - getIndexLevel api (m_bases ! patch (first bi))))
        (upperCorner api (m_bases ! patch (first bi)))"
    using uc0 by (simp add: upperCorn0_def Let_def scaleCorner_map)
  have c1: "upperCorn1 api d m_bases bi =
      map (\<lambda>x. shl x (indexLevelUse api m_bases bi - getIndexLevel api (m_bases ! patch (second bi))))
        (upperCorner api (m_bases ! patch (second bi)))"
    using uc1 by (simp add: upperCorn1_def Let_def scaleCorner_map)
  have r0: "boxes0 api d m_bases bi =
      map (\<lambda>r. r\<lparr>lo := map (\<lambda>x. shl x (indexLevelUse api m_bases bi
                                         - getMaxInsLevel api (m_bases ! patch (first bi)))) (lo r),
                 up := map (\<lambda>x. shl x (indexLevelUse api m_bases bi
                                         - getMaxInsLevel api (m_bases ! patch (first bi)))) (up r)\<rparr>)
        (getBoxesOnSide api (m_bases ! patch (first bi)) (sideIndex (first bi)))"
    unfolding boxes0_def Let_def
    by (rule map_cong[OF refl]) (use b0 in \<open>simp add: scaleBox_map\<close>)
  have r1: "boxes1 api d m_bases bi =
      map (\<lambda>r. mapBox d (dirMap bi) (dirOrientation bi) (upperCorn1 api d m_bases bi) 0
                 (r\<lparr>lo := map (\<lambda>x. shl x (indexLevelUse api m_bases bi
                                         - getMaxInsLevel api (m_bases ! patch (second bi)))) (lo r),
                    up := map (\<lambda>x. shl x (indexLevelUse api m_bases bi
                                         - getMaxInsLevel api (m_bases ! patch (second bi)))) (up r)\<rparr>))
        (getBoxesOnSide api (m_bases ! patch (second bi)) (sideIndex (second bi)))"
    unfolding boxes1_def Let_def
  proof (rule map_cong[OF refl])
    fix r assume "r \<in> set (getBoxesOnSide api (m_bases ! patch (second bi)) (sideIndex (second bi)))"
    with b1 have wr: "wfBox d r" by simp
    show "mapBox d (dirMap bi) (dirOrientation bi) (upperCorn1 api d m_bases bi)
            (indexLevelUse api m_bases bi - getMaxInsLevel api (m_bases ! patch (second bi))) r =
          mapBox d (dirMap bi) (dirOrientation bi) (upperCorn1 api d m_bases bi) 0
            (r\<lparr>lo := map (\<lambda>x. shl x (indexLevelUse api m_bases bi
                                    - getMaxInsLevel api (m_bases ! patch (second bi)))) (lo r),
               up := map (\<lambda>x. shl x (indexLevelUse api m_bases bi
                                    - getMaxInsLevel api (m_bases ! patch (second bi)))) (up r)\<rparr>)"
      using mapBox_scale_first[OF wf wr] scaleBox_map[OF wr] by simp
  qed
  have i0: "intfc0 api m_bases bi =
      sortByColumn0 (map (\<lambda>r. (shl (lo r ! ((direction (first bi) + 1) mod 2))
             (indexLevelUse api m_bases bi - getMaxInsLevel api (m_bases ! patch (first bi))),
           shl (up r ! ((direction (first bi) + 1) mod 2))
             (indexLevelUse api m_bases bi - getMaxInsLevel api (m_bases ! patch (first bi))),
           level r))
        (getBoxesOnSide api (m_bases ! patch (first bi)) (sideIndex (first bi))))"
    by (simp add: intfc0_def Let_def spansOfBoxes_def)
  have i1: "intfc1 api m_bases bi =
      sortByColumn0
        ((if dirOrientation bi ! ((direction (first bi) + 1) mod 2) then (\<lambda>rows. rows)
          else flipSpans (upperCorn1 api 2 m_bases bi ! ((direction (second bi) + 1) mod 2)))
         (map (\<lambda>r. (shl (lo r ! ((direction (second bi) + 1) mod 2))
             (indexLevelUse api m_bases bi - getMaxInsLevel api (m_bases ! patch (second bi))),
           shl (up r ! ((direction (second bi) + 1) mod 2))
             (indexLevelUse api m_bases bi - getMaxInsLevel api (m_bases ! patch (second bi))),
           level r))
        (getBoxesOnSide api (m_bases ! patch (second bi)) (sideIndex (second bi)))))"
    by (simp add: intfc1_def Let_def spansOfBoxes_def)
  have id0: "indexLevelUse api m_bases bi = getIndexLevel api (m_bases ! patch (first bi))
      \<longrightarrow> upperCorn0 api d m_bases bi = upperCorner api (m_bases ! patch (first bi))"
    unfolding c0 by (simp add: map_idI)
  have id1: "indexLevelUse api m_bases bi = getIndexLevel api (m_bases ! patch (second bi))
      \<longrightarrow> upperCorn1 api d m_bases bi = upperCorner api (m_bases ! patch (second bi))"
    unfolding c1 by (simp add: map_idI)
  have sh: "shl x 0 = x \<and> shl x k = push_bit (unat k) x" by (simp add: shl_def)
  show ?thesis
    unfolding Let_def
    using lu c0 c1 id0 id1 r0 r1 i0 i1 sh by (intro conjI) (assumption | simp)+
qed

theorem level_normalisation_witness:
  "indexLevelUse demoApi [demoCoarse, demoWest] demoBi = 3
   \<and> upperCorn0 demoApi 2 [demoCoarse, demoWest] demoBi = [8, 8]
   \<and> upperCorn1 demoApi 2 [demoCoarse, demoWest] demoBi = [8, 8]
   \<and> boxes0 demoApi 2 [demoCoarse, demoWest] demoBi = [box [4, 0] [8, 8] 2]
   \<and> boxes1 demoApi 2 [demoCoarse, demoWest] demoBi = [box [0, 4] [4, 8] 3, box [0, 0] [4, 4] 3]
   \<and> intfc0 demoApi [demoCoarse, demoWest] demoBi = [(0, 8, 2)]"
proof -
  have h1: "length (upperCorner demoApi ([demoCoarse, demoWest] ! patch (first demoBi))) = 2"
    by code_simp
  have h2: "length (upperCorner demoApi ([demoCoarse, demoWest] ! patch (second demoBi))) = 2"
    by code_simp
  have h3: "\<forall>r\<in>set (getBoxesOnSide demoApi ([demoCoarse, demoWest] ! patch (first demoBi))
                     (sideIndex (first demoBi))). wfBox 2 r"
    by code_simp
  have h4: "\<forall>r\<in>set (getBoxesOnSide demoApi ([demoCoarse, demoWest] ! patch (second demoBi))
                     (sideIndex (second demoBi))). wfBox 2 r"
    by code_simp
  have h5: "wfOrient 2 (dirMap demoBi) (dirOrientation demoBi)"
    by code_simp
  have res: "indexLevelUse demoApi [demoCoarse, demoWest] demoBi = 3
   \<and> upperCorn0 demoApi 2 [demoCoarse, demoWest] demoBi = [8, 8]
   \<and> upperCorn1 demoApi 2 [demoCoarse, demoWest] demoBi = [8, 8]
   \<and> boxes0 demoApi 2 [demoCoarse, demoWest] demoBi = [box [4, 0] [8, 8] 2]
   \<and> boxes1 demoApi 2 [demoCoarse, demoWest] demoBi = [box [0, 4] [4, 8] 3, box [0, 0] [4, 4] 3]
   \<and> intfc0 demoApi [demoCoarse, demoWest] demoBi = [(0, 8, 2)]"
    by code_simp
  from level_normalisation [OF h1 h2 h3 h4 h5, where x = 0 and k = 0] res
  show ?thesis by blast
qed

section \<open>The refinement request of one segment\<close>

lemma emitStep_equal:
  "seg ! 4 = seg ! 5 \<Longrightarrow> emitStep d bi ilu uc0 uc1 ax0 ax1 seg st = st"
  by (simp add: emitStep_def Let_def split: prod.splits)

lemma emitStep_first:
  fixes ilu :: u32 and uc0 :: "u32 list"
  assumes d: "d = 2 \<or> d = 3" and dir: "direction (first bi) < d"
    and len: "length tmpvec = 1 + 2 * d"
    and lt: "seg ! 4 < seg ! 5"
    and ax0: "sideAxes0 d bi = (a0, b0, c0)"
  defines "req \<equiv> fillBox d ilu (seg ! 5) a0 b0 c0 (sideIndex (first bi)) uc0 seg tmpvec"
  shows "length req = 1 + 2 * d
     \<and> emitStep d bi ilu uc0 uc1 (a0, b0, c0) ax1 seg (tmpvec, F, S) = (req, F @ req, S)
     \<and> req ! 0 = seg ! 5
     \<and> req ! (1 + a0) = shr (seg ! 0) (ilu - seg ! 5)
     \<and> req ! (1 + d + a0) = shr (seg ! 2) (ilu - seg ! 5)
     \<and> (d = 3 \<longrightarrow> req ! (1 + b0) = shr (seg ! 1) (ilu - seg ! 5)
                 \<and> req ! (1 + d + b0) = shr (seg ! 3) (ilu - seg ! 5))
     \<and> req ! (1 + c0) =
          (if sideIndex (first bi) mod 2 = 1 then 0 else shr (uc0 ! c0) (ilu - seg ! 5) - 1)
     \<and> req ! (1 + d + c0) =
          (if sideIndex (first bi) mod 2 = 1 then 1 else shr (uc0 ! c0) (ilu - seg ! 5))"
proof -
  note p = sideAxes0_props[OF d dir ax0]
  have ne: "seg ! 4 \<noteq> seg ! 5" using lt by auto
  have s1: "emitStep d bi ilu uc0 uc1 (a0, b0, c0) ax1 seg (tmpvec, F, S) = (req, F @ req, S)"
    using lt ne by (simp add: emitStep_def Let_def req_def split: prod.splits)
  have s2: "length req = 1 + 2 * d" by (simp add: req_def fillBox_length len)
  note f = fillBox_nth[OF d p(1) p(2) p(3) p(5) len, where ilu = ilu and Luse = "seg ! 5"
      and idx = "sideIndex (first bi)" and uc = uc0 and seg = seg, folded req_def]
  from s1 s2 f show ?thesis by blast
qed

lemma emitStep_second:
  fixes ilu :: u32 and uc1 :: "u32 list"
  assumes d: "d = 2 \<or> d = 3" and dir: "direction (first bi) < d"
    and wf: "wfOrient d (dirMap bi) (dirOrientation bi)"
    and len: "length tmpvec = 1 + 2 * d"
    and lt: "seg ! 5 < seg ! 4"
    and ax0: "sideAxes0 d bi = (a0, b0, c0)" and ax1: "sideAxes1 d bi = (a1, b1, c1)"
  defines "tv \<equiv> fillBox d ilu (seg ! 4) a1 b1 c1 (sideIndex (second bi)) uc1 seg tmpvec"
  defines "req \<equiv> unflip d (dirMap bi) (dirOrientation bi) uc1 (ilu - seg ! 4) c1 tv"
  shows "length req = 1 + 2 * d
     \<and> emitStep d bi ilu uc0 uc1 ax0' (a1, b1, c1) seg (tmpvec, F, S) = (req, F, S @ req)
     \<and> req ! 0 = seg ! 4
     \<and> req ! (1 + a1) =
           (if dirOrientation bi ! a0 then shr (seg ! 0) (ilu - seg ! 4)
            else shr (uc1 ! a1) (ilu - seg ! 4) - shr (seg ! 2) (ilu - seg ! 4))
     \<and> req ! (1 + d + a1) =
           (if dirOrientation bi ! a0 then shr (seg ! 2) (ilu - seg ! 4)
            else shr (uc1 ! a1) (ilu - seg ! 4) - shr (seg ! 0) (ilu - seg ! 4))
     \<and> (d = 3 \<longrightarrow>
           req ! (1 + b1) =
             (if dirOrientation bi ! b0 then shr (seg ! 1) (ilu - seg ! 4)
              else shr (uc1 ! b1) (ilu - seg ! 4) - shr (seg ! 3) (ilu - seg ! 4))
         \<and> req ! (1 + d + b1) =
             (if dirOrientation bi ! b0 then shr (seg ! 3) (ilu - seg ! 4)
              else shr (uc1 ! b1) (ilu - seg ! 4) - shr (seg ! 1) (ilu - seg ! 4)))
     \<and> req ! (1 + c1) =
           (if sideIndex (second bi) mod 2 = 1 then 0 else shr (uc1 ! c1) (ilu - seg ! 4) - 1)
     \<and> req ! (1 + d + c1) =
           (if sideIndex (second bi) mod 2 = 1 then 1 else shr (uc1 ! c1) (ilu - seg ! 4))"
proof -
  note p0 = sideAxes0_props[OF d dir ax0]
  note p1 = sideAxes1_props[OF d dir wf ax0 ax1]
  have ltv: "length tv = 1 + 2 * d" by (simp add: tv_def fillBox_length len)
  have lreq: "length req = 1 + 2 * d" by (simp add: req_def unflip_length ltv)
  have ne: "seg ! 4 \<noteq> seg ! 5" "\<not> seg ! 4 < seg ! 5" using lt by auto
  have s1: "emitStep d bi ilu uc0 uc1 ax0' (a1, b1, c1) seg (tmpvec, F, S) = (req, F, S @ req)"
    using ne lreq
    by (simp add: emitStep_def Let_def req_def[symmetric] tv_def[symmetric] split: prod.splits)
  note f = fillBox_nth[OF d p1(4) p1(5) p1(6) p1(7) len, where ilu = ilu and Luse = "seg ! 4"
      and idx = "sideIndex (second bi)" and uc = uc1 and seg = seg, folded tv_def]
  have s0: "req ! 0 = seg ! 4" unfolding req_def unflip_head by (rule f(1))
  have b0d: "d = 3 \<Longrightarrow> b0 < d" using p0(5) by simp
  have b1c: "d = 3 \<Longrightarrow> b1 \<noteq> c1" using p1(7) by simp
  note ua = unflip_nth[OF wf p0(1) ltv, of uc1 "ilu - seg ! 4" c1, folded req_def p1(1)]
  note uc = unflip_nth[OF wf p0(2) ltv, of uc1 "ilu - seg ! 4" c1, folded req_def p1(3)]
  have a1: "req ! (1 + a1) =
           (if dirOrientation bi ! a0 then shr (seg ! 0) (ilu - seg ! 4)
            else shr (uc1 ! a1) (ilu - seg ! 4) - shr (seg ! 2) (ilu - seg ! 4))"
    unfolding ua(1) using p1(6) f(2) f(3) by simp
  have a2: "req ! (1 + d + a1) =
           (if dirOrientation bi ! a0 then shr (seg ! 2) (ilu - seg ! 4)
            else shr (uc1 ! a1) (ilu - seg ! 4) - shr (seg ! 0) (ilu - seg ! 4))"
    unfolding ua(2) using p1(6) f(2) f(3) by simp
  have c1: "req ! (1 + c1) =
           (if sideIndex (second bi) mod 2 = 1 then 0 else shr (uc1 ! c1) (ilu - seg ! 4) - 1)"
    unfolding uc(1) using f(6) by simp
  have c2: "req ! (1 + d + c1) =
           (if sideIndex (second bi) mod 2 = 1 then 1 else shr (uc1 ! c1) (ilu - seg ! 4))"
    unfolding uc(2) using f(7) by simp
  have b: "d = 3 \<longrightarrow>
           req ! (1 + b1) =
             (if dirOrientation bi ! b0 then shr (seg ! 1) (ilu - seg ! 4)
              else shr (uc1 ! b1) (ilu - seg ! 4) - shr (seg ! 3) (ilu - seg ! 4))
         \<and> req ! (1 + d + b1) =
             (if dirOrientation bi ! b0 then shr (seg ! 3) (ilu - seg ! 4)
              else shr (uc1 ! b1) (ilu - seg ! 4) - shr (seg ! 1) (ilu - seg ! 4))"
  proof
    assume d3: "d = 3"
    note ub = unflip_nth[OF wf b0d[OF d3] ltv, of uc1 "ilu - seg ! 4" c1, folded req_def p1(2)]
    from b1c[OF d3] have bc: "b1 \<noteq> c1" .
    from f(4) d3 have f4: "tv ! (1 + b1) = shr (seg ! 1) (ilu - seg ! 4)" by blast
    from f(5) d3 have f5: "tv ! (1 + d + b1) = shr (seg ! 3) (ilu - seg ! 4)" by blast
    show "req ! (1 + b1) =
             (if dirOrientation bi ! b0 then shr (seg ! 1) (ilu - seg ! 4)
              else shr (uc1 ! b1) (ilu - seg ! 4) - shr (seg ! 3) (ilu - seg ! 4))
         \<and> req ! (1 + d + b1) =
             (if dirOrientation bi ! b0 then shr (seg ! 3) (ilu - seg ! 4)
              else shr (uc1 ! b1) (ilu - seg ! 4) - shr (seg ! 1) (ilu - seg ! 4))"
      unfolding ub using bc f4 f5 by simp
  qed
  from lreq s1 s0 a1 a2 b c1 c2 show ?thesis by blast
qed

lemma pushSideBox_nth:
  assumes "idx = 1 \<or> idx = 2 \<or> idx = 3 \<or> idx = 4"
  shows "\<exists>bx. pushSideBox idx uc s k0 k1 = Inr bx \<and> length bx = 4
     \<and> bx ! (1 - (idx - 1) div 2) = k0
     \<and> bx ! (3 - (idx - 1) div 2) = k1
     \<and> bx ! ((idx - 1) div 2) =
         (if idx mod 2 = 1 then 0 else shr (uc ! ((idx - 1) div 2)) s - 1)
     \<and> bx ! (2 + (idx - 1) div 2) =
         (if idx mod 2 = 1 then 1 else shr (uc ! ((idx - 1) div 2)) s)"
  using assms by (auto simp: pushSideBox_def Let_def)

lemma emitStep2d_first:
  assumes lt: "L0 < L1"
    and idx: "sideIndex (first bi) = 1 \<or> sideIndex (first bi) = 2 \<or>
              sideIndex (first bi) = 3 \<or> sideIndex (first bi) = 4"
  shows "\<exists>req. length req = 5
     \<and> emitStep2d bi ilu uc0 uc1 op dir1 (knot1, L0, L1) (knot0, F, S) = Inr (knot1, F @ req, S)
     \<and> req ! 0 = L1
     \<and> req ! (1 + (1 - (sideIndex (first bi) - 1) div 2)) = shr knot0 (ilu - L1)
     \<and> req ! (3 + (1 - (sideIndex (first bi) - 1) div 2)) = shr knot1 (ilu - L1)
     \<and> req ! (1 + (sideIndex (first bi) - 1) div 2) =
         (if sideIndex (first bi) mod 2 = 1 then 0
          else shr (uc0 ! ((sideIndex (first bi) - 1) div 2)) (ilu - L1) - 1)
     \<and> req ! (3 + (sideIndex (first bi) - 1) div 2) =
         (if sideIndex (first bi) mod 2 = 1 then 1
          else shr (uc0 ! ((sideIndex (first bi) - 1) div 2)) (ilu - L1))"
proof -
  from pushSideBox_nth[OF idx, of uc0 "ilu - L1" "shr knot0 (ilu - L1)" "shr knot1 (ilu - L1)"]
  obtain bx where bx: "pushSideBox (sideIndex (first bi)) uc0 (ilu - L1)
        (shr knot0 (ilu - L1)) (shr knot1 (ilu - L1)) = Inr bx" "length bx = 4"
     "bx ! (1 - (sideIndex (first bi) - 1) div 2) = shr knot0 (ilu - L1)"
     "bx ! (3 - (sideIndex (first bi) - 1) div 2) = shr knot1 (ilu - L1)"
     "bx ! ((sideIndex (first bi) - 1) div 2) =
         (if sideIndex (first bi) mod 2 = 1 then 0
          else shr (uc0 ! ((sideIndex (first bi) - 1) div 2)) (ilu - L1) - 1)"
     "bx ! (2 + (sideIndex (first bi) - 1) div 2) =
         (if sideIndex (first bi) mod 2 = 1 then 1
          else shr (uc0 ! ((sideIndex (first bi) - 1) div 2)) (ilu - L1))"
    by blast
  have n: "(sideIndex (first bi) - 1) div 2 \<le> 1" using idx by auto
  have e: "emitStep2d bi ilu uc0 uc1 op dir1 (knot1, L0, L1) (knot0, F, S)
             = Inr (knot1, F @ (L1 # bx), S)"
    using lt bx(1) by (simp add: emitStep2d_def Let_def)
  have i1: "3 + (1 - (sideIndex (first bi) - 1) div 2) = Suc (3 - (sideIndex (first bi) - 1) div 2)"
    and i2: "3 + (sideIndex (first bi) - 1) div 2 = Suc (2 + (sideIndex (first bi) - 1) div 2)"
    using n by auto
  show ?thesis
    apply (rule exI[of _ "L1 # bx"])
    using e bx(2-6) unfolding i1 i2 by simp
qed

lemma emitStep2d_second:
  assumes lt: "L1 < L0"
    and idx: "sideIndex (second bi) = 1 \<or> sideIndex (second bi) = 2 \<or>
              sideIndex (second bi) = 3 \<or> sideIndex (second bi) = 4"
  shows "\<exists>req. length req = 5
     \<and> emitStep2d bi ilu uc0 uc1 op dir1 (knot1, L0, L1) (knot0, F, S) = Inr (knot1, F, S @ req)
     \<and> req ! 0 = L0
     \<and> req ! (1 + (1 - (sideIndex (second bi) - 1) div 2)) =
         (if op then shr knot0 (ilu - L0) else shr (uc1 ! dir1 - knot1) (ilu - L0))
     \<and> req ! (3 + (1 - (sideIndex (second bi) - 1) div 2)) =
         (if op then shr knot1 (ilu - L0) else shr (uc1 ! dir1 - knot0) (ilu - L0))
     \<and> req ! (1 + (sideIndex (second bi) - 1) div 2) =
         (if sideIndex (second bi) mod 2 = 1 then 0
          else shr (uc1 ! ((sideIndex (second bi) - 1) div 2)) (ilu - L0) - 1)
     \<and> req ! (3 + (sideIndex (second bi) - 1) div 2) =
         (if sideIndex (second bi) mod 2 = 1 then 1
          else shr (uc1 ! ((sideIndex (second bi) - 1) div 2)) (ilu - L0))"
proof -
  let ?k0 = "shr (if \<not> op then uc1 ! dir1 - knot1 else knot0) (ilu - L0)"
  let ?k1 = "shr (if \<not> op then uc1 ! dir1 - knot0 else knot1) (ilu - L0)"
  from pushSideBox_nth[OF idx, of uc1 "ilu - L0" ?k0 ?k1]
  obtain bx where bx: "pushSideBox (sideIndex (second bi)) uc1 (ilu - L0) ?k0 ?k1 = Inr bx"
     "length bx = 4"
     "bx ! (1 - (sideIndex (second bi) - 1) div 2) = ?k0"
     "bx ! (3 - (sideIndex (second bi) - 1) div 2) = ?k1"
     "bx ! ((sideIndex (second bi) - 1) div 2) =
         (if sideIndex (second bi) mod 2 = 1 then 0
          else shr (uc1 ! ((sideIndex (second bi) - 1) div 2)) (ilu - L0) - 1)"
     "bx ! (2 + (sideIndex (second bi) - 1) div 2) =
         (if sideIndex (second bi) mod 2 = 1 then 1
          else shr (uc1 ! ((sideIndex (second bi) - 1) div 2)) (ilu - L0))"
    by blast
  have n: "(sideIndex (second bi) - 1) div 2 \<le> 1" using idx by auto
  have nlt: "\<not> L0 < L1" using lt by auto
  have e: "emitStep2d bi ilu uc0 uc1 op dir1 (knot1, L0, L1) (knot0, F, S)
             = Inr (knot1, F, S @ (L0 # bx))"
    using lt nlt bx(1) by (simp add: emitStep2d_def Let_def)
  have i1: "3 + (1 - (sideIndex (second bi) - 1) div 2) = Suc (3 - (sideIndex (second bi) - 1) div 2)"
    and i2: "3 + (sideIndex (second bi) - 1) div 2 = Suc (2 + (sideIndex (second bi) - 1) div 2)"
    using n by auto
  show ?thesis
    apply (rule exI[of _ "L0 # bx"])
    using e bx(2-6) unfolding i1 i2 by auto
qed

text \<open>
  Claim C1, as amended. One pass of the loop over the merged segments, in
  \<^verbatim>\<open>repairInterfaceFindElements\<close> (first part) and in \<^verbatim>\<open>repairInterface2d\<close> (second part):
  when the two levels of the segment are equal nothing is pushed; when they differ,
  exactly one request is pushed, to the vector of the patch with the lower level, and its
  level is the higher of the two levels. On the axis normal to the side the request is
  \<open>[0, 1]\<close> for an odd side index and \<open>[upperCornOnLevel - 1, upperCornOnLevel]\<close> for an even
  one, where \<open>upperCornOnLevel\<close> is the upper corner of the refined patch shifted right to
  the level of the request. On the axes that span the interface a request for the first
  patch is the extent of the segment shifted right to that level. A request for the
  second patch is stored on the axes \<^verbatim>\<open>dirMap\<close> assigns, and where the orientation flag
  of the axis is false its extent is reflected about the upper corner of the second
  patch: after the shift in \<^verbatim>\<open>repairInterfaceFindElements\<close>, before it in
  \<^verbatim>\<open>repairInterface2d\<close>.
\<close>

theorem refinement_request_per_segment:
  "((d = 2 \<or> d = 3) \<and> direction (first bi) < d
      \<and> wfOrient d (dirMap bi) (dirOrientation bi) \<and> length tmpvec = 1 + 2 * d
      \<and> sideAxes0 d bi = (a0, b0, c0) \<and> sideAxes1 d bi = (a1, b1, c1)
    \<longrightarrow>
      (seg ! 4 = seg ! 5 \<longrightarrow>
         emitStep d bi ilu uc0 uc1 (a0, b0, c0) (a1, b1, c1) seg (tmpvec, F, S) = (tmpvec, F, S))
    \<and> (seg ! 4 < seg ! 5 \<longrightarrow>
         (\<exists>req. length req = 1 + 2 * d
          \<and> emitStep d bi ilu uc0 uc1 (a0, b0, c0) (a1, b1, c1) seg (tmpvec, F, S)
              = (req, F @ req, S)
          \<and> req ! 0 = seg ! 5
          \<and> req ! (1 + a0) = shr (seg ! 0) (ilu - seg ! 5)
          \<and> req ! (1 + d + a0) = shr (seg ! 2) (ilu - seg ! 5)
          \<and> (d = 3 \<longrightarrow> req ! (1 + b0) = shr (seg ! 1) (ilu - seg ! 5)
                      \<and> req ! (1 + d + b0) = shr (seg ! 3) (ilu - seg ! 5))
          \<and> req ! (1 + c0) =
               (if sideIndex (first bi) mod 2 = 1 then 0 else shr (uc0 ! c0) (ilu - seg ! 5) - 1)
          \<and> req ! (1 + d + c0) =
               (if sideIndex (first bi) mod 2 = 1 then 1 else shr (uc0 ! c0) (ilu - seg ! 5))))
    \<and> (seg ! 5 < seg ! 4 \<longrightarrow>
         (\<exists>req. length req = 1 + 2 * d
          \<and> emitStep d bi ilu uc0 uc1 (a0, b0, c0) (a1, b1, c1) seg (tmpvec, F, S)
              = (req, F, S @ req)
          \<and> req ! 0 = seg ! 4
          \<and> req ! (1 + a1) =
               (if dirOrientation bi ! a0 then shr (seg ! 0) (ilu - seg ! 4)
                else shr (uc1 ! a1) (ilu - seg ! 4) - shr (seg ! 2) (ilu - seg ! 4))
          \<and> req ! (1 + d + a1) =
               (if dirOrientation bi ! a0 then shr (seg ! 2) (ilu - seg ! 4)
                else shr (uc1 ! a1) (ilu - seg ! 4) - shr (seg ! 0) (ilu - seg ! 4))
          \<and> (d = 3 \<longrightarrow>
                req ! (1 + b1) =
                  (if dirOrientation bi ! b0 then shr (seg ! 1) (ilu - seg ! 4)
                   else shr (uc1 ! b1) (ilu - seg ! 4) - shr (seg ! 3) (ilu - seg ! 4))
              \<and> req ! (1 + d + b1) =
                  (if dirOrientation bi ! b0 then shr (seg ! 3) (ilu - seg ! 4)
                   else shr (uc1 ! b1) (ilu - seg ! 4) - shr (seg ! 1) (ilu - seg ! 4)))
          \<and> req ! (1 + c1) =
               (if sideIndex (second bi) mod 2 = 1 then 0 else shr (uc1 ! c1) (ilu - seg ! 4) - 1)
          \<and> req ! (1 + d + c1) =
               (if sideIndex (second bi) mod 2 = 1 then 1 else shr (uc1 ! c1) (ilu - seg ! 4)))))
   \<and> ((sideIndex (first bi) = 1 \<or> sideIndex (first bi) = 2 \<or>
        sideIndex (first bi) = 3 \<or> sideIndex (first bi) = 4)
      \<and> (sideIndex (second bi) = 1 \<or> sideIndex (second bi) = 2 \<or>
         sideIndex (second bi) = 3 \<or> sideIndex (second bi) = 4)
    \<longrightarrow>
      (L0 = L1 \<longrightarrow>
         emitStep2d bi ilu uc0 uc1 op dir1 (knot1, L0, L1) (knot0, F, S) = Inr (knot1, F, S))
    \<and> (L0 < L1 \<longrightarrow>
         (\<exists>req. length req = 5
          \<and> emitStep2d bi ilu uc0 uc1 op dir1 (knot1, L0, L1) (knot0, F, S)
              = Inr (knot1, F @ req, S)
          \<and> req ! 0 = L1
          \<and> req ! (1 + (1 - (sideIndex (first bi) - 1) div 2)) = shr knot0 (ilu - L1)
          \<and> req ! (3 + (1 - (sideIndex (first bi) - 1) div 2)) = shr knot1 (ilu - L1)
          \<and> req ! (1 + (sideIndex (first bi) - 1) div 2) =
              (if sideIndex (first bi) mod 2 = 1 then 0
               else shr (uc0 ! ((sideIndex (first bi) - 1) div 2)) (ilu - L1) - 1)
          \<and> req ! (3 + (sideIndex (first bi) - 1) div 2) =
              (if sideIndex (first bi) mod 2 = 1 then 1
               else shr (uc0 ! ((sideIndex (first bi) - 1) div 2)) (ilu - L1))))
    \<and> (L1 < L0 \<longrightarrow>
         (\<exists>req. length req = 5
          \<and> emitStep2d bi ilu uc0 uc1 op dir1 (knot1, L0, L1) (knot0, F, S)
              = Inr (knot1, F, S @ req)
          \<and> req ! 0 = L0
          \<and> req ! (1 + (1 - (sideIndex (second bi) - 1) div 2)) =
              (if op then shr knot0 (ilu - L0) else shr (uc1 ! dir1 - knot1) (ilu - L0))
          \<and> req ! (3 + (1 - (sideIndex (second bi) - 1) div 2)) =
              (if op then shr knot1 (ilu - L0) else shr (uc1 ! dir1 - knot0) (ilu - L0))
          \<and> req ! (1 + (sideIndex (second bi) - 1) div 2) =
              (if sideIndex (second bi) mod 2 = 1 then 0
               else shr (uc1 ! ((sideIndex (second bi) - 1) div 2)) (ilu - L0) - 1)
          \<and> req ! (3 + (sideIndex (second bi) - 1) div 2) =
              (if sideIndex (second bi) mod 2 = 1 then 1
               else shr (uc1 ! ((sideIndex (second bi) - 1) div 2)) (ilu - L0)))))"
proof (intro conjI impI; (elim conjE)?)
  assume "seg ! 4 = seg ! 5"
  then show "emitStep d bi ilu uc0 uc1 (a0, b0, c0) (a1, b1, c1) seg (tmpvec, F, S) = (tmpvec, F, S)"
    by (rule emitStep_equal)
next
  assume h: "d = 2 \<or> d = 3" "direction (first bi) < d" "length tmpvec = 1 + 2 * d"
    "sideAxes0 d bi = (a0, b0, c0)" and lt: "seg ! 4 < seg ! 5"
  note e = emitStep_first[OF h(1) h(2) h(3) lt h(4), where ilu = ilu and ?uc0.0 = uc0
      and ?uc1.0 = uc1 and ?ax1.0 = "(a1, b1, c1)" and F = F and S = S]
  show "\<exists>req. length req = 1 + 2 * d
          \<and> emitStep d bi ilu uc0 uc1 (a0, b0, c0) (a1, b1, c1) seg (tmpvec, F, S)
              = (req, F @ req, S)
          \<and> req ! 0 = seg ! 5
          \<and> req ! (1 + a0) = shr (seg ! 0) (ilu - seg ! 5)
          \<and> req ! (1 + d + a0) = shr (seg ! 2) (ilu - seg ! 5)
          \<and> (d = 3 \<longrightarrow> req ! (1 + b0) = shr (seg ! 1) (ilu - seg ! 5)
                      \<and> req ! (1 + d + b0) = shr (seg ! 3) (ilu - seg ! 5))
          \<and> req ! (1 + c0) =
               (if sideIndex (first bi) mod 2 = 1 then 0 else shr (uc0 ! c0) (ilu - seg ! 5) - 1)
          \<and> req ! (1 + d + c0) =
               (if sideIndex (first bi) mod 2 = 1 then 1 else shr (uc0 ! c0) (ilu - seg ! 5))"
    by (rule exI[of _ "fillBox d ilu (seg ! 5) a0 b0 c0 (sideIndex (first bi)) uc0 seg tmpvec"])
       (use e in blast)
next
  assume h: "d = 2 \<or> d = 3" "direction (first bi) < d" "wfOrient d (dirMap bi) (dirOrientation bi)"
    "length tmpvec = 1 + 2 * d" "sideAxes0 d bi = (a0, b0, c0)" "sideAxes1 d bi = (a1, b1, c1)"
    and lt: "seg ! 5 < seg ! 4"
  note e = emitStep_second[OF h(1) h(2) h(3) h(4) lt h(5) h(6), where ilu = ilu and ?uc1.0 = uc1
      and ?uc0.0 = uc0 and ax0' = "(a0, b0, c0)" and F = F and S = S]
  show "\<exists>req. length req = 1 + 2 * d
          \<and> emitStep d bi ilu uc0 uc1 (a0, b0, c0) (a1, b1, c1) seg (tmpvec, F, S)
              = (req, F, S @ req)
          \<and> req ! 0 = seg ! 4
          \<and> req ! (1 + a1) =
               (if dirOrientation bi ! a0 then shr (seg ! 0) (ilu - seg ! 4)
                else shr (uc1 ! a1) (ilu - seg ! 4) - shr (seg ! 2) (ilu - seg ! 4))
          \<and> req ! (1 + d + a1) =
               (if dirOrientation bi ! a0 then shr (seg ! 2) (ilu - seg ! 4)
                else shr (uc1 ! a1) (ilu - seg ! 4) - shr (seg ! 0) (ilu - seg ! 4))
          \<and> (d = 3 \<longrightarrow>
                req ! (1 + b1) =
                  (if dirOrientation bi ! b0 then shr (seg ! 1) (ilu - seg ! 4)
                   else shr (uc1 ! b1) (ilu - seg ! 4) - shr (seg ! 3) (ilu - seg ! 4))
              \<and> req ! (1 + d + b1) =
                  (if dirOrientation bi ! b0 then shr (seg ! 3) (ilu - seg ! 4)
                   else shr (uc1 ! b1) (ilu - seg ! 4) - shr (seg ! 1) (ilu - seg ! 4)))
          \<and> req ! (1 + c1) =
               (if sideIndex (second bi) mod 2 = 1 then 0 else shr (uc1 ! c1) (ilu - seg ! 4) - 1)
          \<and> req ! (1 + d + c1) =
               (if sideIndex (second bi) mod 2 = 1 then 1 else shr (uc1 ! c1) (ilu - seg ! 4))"
    by (rule exI[of _ "unflip d (dirMap bi) (dirOrientation bi) uc1 (ilu - seg ! 4) c1
            (fillBox d ilu (seg ! 4) a1 b1 c1 (sideIndex (second bi)) uc1 seg tmpvec)"])
       (use e in blast)
next
  assume "L0 = L1"
  then show "emitStep2d bi ilu uc0 uc1 op dir1 (knot1, L0, L1) (knot0, F, S) = Inr (knot1, F, S)"
    by (simp add: emitStep2d_def)
next
  assume idx: "sideIndex (first bi) = 1 \<or> sideIndex (first bi) = 2 \<or>
        sideIndex (first bi) = 3 \<or> sideIndex (first bi) = 4" and lt: "L0 < L1"
  show "\<exists>req. length req = 5
          \<and> emitStep2d bi ilu uc0 uc1 op dir1 (knot1, L0, L1) (knot0, F, S)
              = Inr (knot1, F @ req, S)
          \<and> req ! 0 = L1
          \<and> req ! (1 + (1 - (sideIndex (first bi) - 1) div 2)) = shr knot0 (ilu - L1)
          \<and> req ! (3 + (1 - (sideIndex (first bi) - 1) div 2)) = shr knot1 (ilu - L1)
          \<and> req ! (1 + (sideIndex (first bi) - 1) div 2) =
              (if sideIndex (first bi) mod 2 = 1 then 0
               else shr (uc0 ! ((sideIndex (first bi) - 1) div 2)) (ilu - L1) - 1)
          \<and> req ! (3 + (sideIndex (first bi) - 1) div 2) =
              (if sideIndex (first bi) mod 2 = 1 then 1
               else shr (uc0 ! ((sideIndex (first bi) - 1) div 2)) (ilu - L1))"
    by (rule emitStep2d_first[OF lt idx])
next
  assume idx: "sideIndex (second bi) = 1 \<or> sideIndex (second bi) = 2 \<or>
         sideIndex (second bi) = 3 \<or> sideIndex (second bi) = 4" and lt: "L1 < L0"
  show "\<exists>req. length req = 5
          \<and> emitStep2d bi ilu uc0 uc1 op dir1 (knot1, L0, L1) (knot0, F, S)
              = Inr (knot1, F, S @ req)
          \<and> req ! 0 = L0
          \<and> req ! (1 + (1 - (sideIndex (second bi) - 1) div 2)) =
              (if op then shr knot0 (ilu - L0) else shr (uc1 ! dir1 - knot1) (ilu - L0))
          \<and> req ! (3 + (1 - (sideIndex (second bi) - 1) div 2)) =
              (if op then shr knot1 (ilu - L0) else shr (uc1 ! dir1 - knot0) (ilu - L0))
          \<and> req ! (1 + (sideIndex (second bi) - 1) div 2) =
              (if sideIndex (second bi) mod 2 = 1 then 0
               else shr (uc1 ! ((sideIndex (second bi) - 1) div 2)) (ilu - L0) - 1)
          \<and> req ! (3 + (sideIndex (second bi) - 1) div 2) =
              (if sideIndex (second bi) mod 2 = 1 then 1
               else shr (uc1 ! ((sideIndex (second bi) - 1) div 2)) (ilu - L0))"
    by (rule emitStep2d_second[OF lt idx])
qed

theorem refinement_request_per_segment_witness:
  "emitStep 2 demoBiFlip 3 [8, 8] [8, 8] (1, 1, 0) (1, 1, 0) [0, 0, 2, 2, 3, 2]
       (replicate 5 0, [], []) = ([3, 7, 6, 8, 8], [], [3, 7, 6, 8, 8])
   \<and> emitStep 2 demoBi 3 [8, 8] [8, 8] (1, 1, 0) (1, 1, 0) [0, 0, 4, 4, 2, 3]
       (replicate 5 0, [], []) = ([3, 7, 0, 8, 4], [3, 7, 0, 8, 4], [])
   \<and> emitStep2d demoBiFlip 3 [8, 8] [8, 8] False 1 (2, 3, 2) (0, [], [])
       = Inr (2, [], [3, 7, 6, 8, 8])"
proof -
  have h: "((2::nat) = 2 \<or> (2::nat) = 3) \<and> direction (first demoBiFlip) < 2
      \<and> wfOrient 2 (dirMap demoBiFlip) (dirOrientation demoBiFlip)
      \<and> length (replicate 5 (0::u32)) = 1 + 2 * 2
      \<and> sideAxes0 2 demoBiFlip = (1, 1, 0) \<and> sideAxes1 2 demoBiFlip = (1, 1, 0)"
    by code_simp
  have i: "(sideIndex (first demoBiFlip) = 1 \<or> sideIndex (first demoBiFlip) = 2 \<or>
        sideIndex (first demoBiFlip) = 3 \<or> sideIndex (first demoBiFlip) = 4)
      \<and> (sideIndex (second demoBiFlip) = 1 \<or> sideIndex (second demoBiFlip) = 2 \<or>
         sideIndex (second demoBiFlip) = 3 \<or> sideIndex (second demoBiFlip) = 4)"
    by code_simp
  have lt: "([0, 0, 2, 2, 3, 2] :: u32 list) ! 5 < [0, 0, 2, 2, 3, 2] ! 4"
    by code_simp
  have lt2: "(2::u32) < 3" by simp
  note t = refinement_request_per_segment [of 2 demoBiFlip "replicate 5 0" 1 1 0 1 1 0
      "[0, 0, 2, 2, 3, 2]" 3 "[8, 8]" "[8, 8]" "[]" "[]" 3 2 False 1 2 0]
  note a = t[THEN conjunct1, THEN mp, OF h, THEN conjunct2, THEN conjunct2, THEN mp, OF lt]
  note b = t[THEN conjunct2, THEN mp, OF i, THEN conjunct2, THEN conjunct2, THEN mp, OF lt2]
  have res: "emitStep 2 demoBiFlip 3 [8, 8] [8, 8] (1, 1, 0) (1, 1, 0) [0, 0, 2, 2, 3, 2]
       (replicate 5 0, [], []) = ([3, 7, 6, 8, 8], [], [3, 7, 6, 8, 8])
   \<and> emitStep 2 demoBi 3 [8, 8] [8, 8] (1, 1, 0) (1, 1, 0) [0, 0, 4, 4, 2, 3]
       (replicate 5 0, [], []) = ([3, 7, 0, 8, 4], [3, 7, 0, 8, 4], [])
   \<and> emitStep2d demoBiFlip 3 [8, 8] [8, 8] False 1 (2, 3, 2) (0, [], [])
       = Inr (2, [], [3, 7, 6, 8, 8])"
    by code_simp
  from a b show ?thesis by - (rule res)
qed

text \<open>
  The claim as it was stated, without the reflection, fails: on the interface
  \<open>demoBiFlip\<close> the first merged segment is \<open>[0, 2]\<close> with levels \<open>(3, 2)\<close> on reference
  level 3, the request goes to the second patch (patch 0) and its extent on the
  tangential axis 1 is \<open>[6, 8]\<close>, not \<open>[0, 2]\<close>.
\<close>

theorem request_extent_counterexample:
  "iU demoApi 2 [demoEast, demoWestMixed] demoBiFlip = [[0, 0, 2, 2, 3, 2], [2, 2, 8, 8, 2, 2]]
   \<and> indexLevelUse demoApi [demoEast, demoWestMixed] demoBiFlip = 3
   \<and> patch (second demoBiFlip) = 0
   \<and> repairInterfaceFindElements demoApi 2 [demoEast, demoWestMixed] demoBiFlip
       = Inr ([], [3, 7, 6, 8, 8], True)
   \<and> ([3, 7, 6, 8, 8] :: u32 list) ! 2 \<noteq> shr ([0, 0, 2, 2, 3, 2] ! 0) (3 - 3)
   \<and> ([3, 7, 6, 8, 8] :: u32 list) ! 4 \<noteq> shr ([0, 0, 2, 2, 3, 2] ! 2) (3 - 3)"
  by code_simp

section \<open>The reflection of the second side\<close>

text \<open>
  Claim C4. For a box \<open>r\<close> of the second side and an axis \<open>jj\<close> whose flag
  \<^verbatim>\<open>dirOrient[jj]\<close> is false, the column \<open>j = dirMap[jj]\<close> of the mapped box is
  \<open>[upperCorn1[j] - up, upperCorn1[j] - lo]\<close>, where \<open>lo\<close> and \<open>up\<close> are the rescaled entries
  of \<open>r\<close> and \<^verbatim>\<open>upperCorn1\<close> is the upper corner of the second patch on the reference
  level. When a request is pushed for the second patch, its entries on such an axis, if
  the axis spans the interface, are reflected in the same way about \<open>upperCorn1[j]\<close> shifted
  right to the level of the request.
\<close>

theorem second_side_reflection:
  "(wfOrient d (dirMap bi) (dirOrientation bi) \<and> jj < d \<and> \<not> dirOrientation bi ! jj
      \<and> r \<in> set (getBoxesOnSide api (m_bases ! patch (second bi)) (sideIndex (second bi)))
      \<and> wfBox d r
    \<longrightarrow> (let j = dirMap bi ! jj;
             e = indexLevelUse api m_bases bi - getMaxInsLevel api (m_bases ! patch (second bi));
             uc1 = upperCorn1 api d m_bases bi;
             r' = mapBox d (dirMap bi) (dirOrientation bi) uc1 e r
         in r' \<in> set (boxes1 api d m_bases bi)
          \<and> lo r' ! j = uc1 ! j - shl (up r ! j) e
          \<and> up r' ! j = uc1 ! j - shl (lo r ! j) e))
   \<and> ((d = 2 \<or> d = 3) \<and> direction (first bi) < d
      \<and> wfOrient d (dirMap bi) (dirOrientation bi) \<and> length tmpvec = 1 + 2 * d
      \<and> sideAxes0 d bi = (a0, b0, c0) \<and> sideAxes1 d bi = (a1, b1, c1)
      \<and> seg ! 5 < seg ! 4 \<and> kk < d \<and> kk \<noteq> c0 \<and> \<not> dirOrientation bi ! kk
    \<longrightarrow> (let j = dirMap bi ! kk;
             s = ilu - seg ! 4;
             tv = fillBox d ilu (seg ! 4) a1 b1 c1 (sideIndex (second bi)) uc seg tmpvec;
             req = unflip d (dirMap bi) (dirOrientation bi) uc s c1 tv
         in emitStep d bi ilu uc0 uc (a0, b0, c0) (a1, b1, c1) seg (tmpvec, F, S)
              = (req, F, S @ req)
          \<and> req ! (1 + j) = shr (uc ! j) s - tv ! (1 + d + j)
          \<and> req ! (1 + d + j) = shr (uc ! j) s - tv ! (1 + j)))"
proof (intro conjI impI; (elim conjE)?)
  assume wf: "wfOrient d (dirMap bi) (dirOrientation bi)" and jj: "jj < d"
    and fl: "\<not> dirOrientation bi ! jj"
    and r: "r \<in> set (getBoxesOnSide api (m_bases ! patch (second bi)) (sideIndex (second bi)))"
    and wr: "wfBox d r"
  have mem: "mapBox d (dirMap bi) (dirOrientation bi) (upperCorn1 api d m_bases bi)
        (indexLevelUse api m_bases bi - getMaxInsLevel api (m_bases ! patch (second bi))) r
      \<in> set (boxes1 api d m_bases bi)"
    using r by (simp add: boxes1_def Let_def)
  note m = mapBox_nth[OF wf wr jj, of "upperCorn1 api d m_bases bi"
      "indexLevelUse api m_bases bi - getMaxInsLevel api (m_bases ! patch (second bi))"]
  show "let j = dirMap bi ! jj;
             e = indexLevelUse api m_bases bi - getMaxInsLevel api (m_bases ! patch (second bi));
             uc1 = upperCorn1 api d m_bases bi;
             r' = mapBox d (dirMap bi) (dirOrientation bi) uc1 e r
         in r' \<in> set (boxes1 api d m_bases bi)
          \<and> lo r' ! j = uc1 ! j - shl (up r ! j) e
          \<and> up r' ! j = uc1 ! j - shl (lo r ! j) e"
    unfolding Let_def using mem m fl by simp
next
  assume h: "d = 2 \<or> d = 3" "direction (first bi) < d" "wfOrient d (dirMap bi) (dirOrientation bi)"
    "length tmpvec = 1 + 2 * d" "sideAxes0 d bi = (a0, b0, c0)" "sideAxes1 d bi = (a1, b1, c1)"
    and lt: "seg ! 5 < seg ! 4" and kk: "kk < d" "kk \<noteq> c0" "\<not> dirOrientation bi ! kk"
  note p0 = sideAxes0_props[OF h(1) h(2) h(5)]
  note p1 = sideAxes1_props[OF h(1) h(2) h(3) h(5) h(6)]
  let ?tv = "fillBox d ilu (seg ! 4) a1 b1 c1 (sideIndex (second bi)) uc seg tmpvec"
  have ltv: "length ?tv = 1 + 2 * d" by (simp add: fillBox_length h(4))
  have jc: "dirMap bi ! kk \<noteq> c1"
    using wfOrient_inj[OF h(3) kk(1) p0(2)] kk(2) p1(3) by auto
  note e = emitStep_second[OF h(1) h(2) h(3) h(4) lt h(5) h(6), where ilu = ilu and ?uc1.0 = uc
      and ?uc0.0 = uc0 and ax0' = "(a0, b0, c0)" and F = F and S = S]
  note u = unflip_nth[OF h(3) kk(1) ltv, of uc "ilu - seg ! 4" c1]
  show "let j = dirMap bi ! kk;
             s = ilu - seg ! 4;
             tv = fillBox d ilu (seg ! 4) a1 b1 c1 (sideIndex (second bi)) uc seg tmpvec;
             req = unflip d (dirMap bi) (dirOrientation bi) uc s c1 tv
         in emitStep d bi ilu uc0 uc (a0, b0, c0) (a1, b1, c1) seg (tmpvec, F, S)
              = (req, F, S @ req)
          \<and> req ! (1 + j) = shr (uc ! j) s - tv ! (1 + d + j)
          \<and> req ! (1 + d + j) = shr (uc ! j) s - tv ! (1 + j)"
    unfolding Let_def using e u jc kk(3) by simp
qed

theorem second_side_reflection_witness:
  "mapBox 2 [0, 1] [True, False] [8, 8] 0 (box [4, 2] [8, 8] 2) = box [4, 0] [8, 6] 2
   \<and> emitStep 2 demoBiFlip 3 [8, 8] [8, 8] (1, 1, 0) (1, 1, 0) [0, 0, 2, 2, 3, 2]
       (replicate 5 0, [], []) = ([3, 7, 6, 8, 8], [], [3, 7, 6, 8, 8])
   \<and> fillBox 2 3 3 1 1 0 2 [8, 8] [0, 0, 2, 2, 3, 2] (replicate 5 0) = [3, 7, 0, 8, 2]"
proof -
  have g: "wfOrient 2 (dirMap demoBiFlip) (dirOrientation demoBiFlip) \<and> (1::nat) < 2
      \<and> \<not> dirOrientation demoBiFlip ! 1
      \<and> box [4, 2] [8, 8] 2 \<in> set (getBoxesOnSide demoApi
             ([demoEast\<lparr>dBoxes := [(2, [box [4, 2] [8, 8] 2])]\<rparr>, demoWestMixed]
                ! patch (second demoBiFlip)) (sideIndex (second demoBiFlip)))
      \<and> wfBox 2 (box [4, 2] [8, 8] 2)"
    by code_simp
  have h: "((2::nat) = 2 \<or> (2::nat) = 3) \<and> direction (first demoBiFlip) < 2
      \<and> wfOrient 2 (dirMap demoBiFlip) (dirOrientation demoBiFlip)
      \<and> length (replicate 5 (0::u32)) = 1 + 2 * 2
      \<and> sideAxes0 2 demoBiFlip = (1, 1, 0) \<and> sideAxes1 2 demoBiFlip = (1, 1, 0)
      \<and> ([0, 0, 2, 2, 3, 2] :: u32 list) ! 5 < [0, 0, 2, 2, 3, 2] ! 4
      \<and> (1::nat) < 2 \<and> (1::nat) \<noteq> 0 \<and> \<not> dirOrientation demoBiFlip ! 1"
    by code_simp
  note t = second_side_reflection [of 2 demoBiFlip 1 "box [4, 2] [8, 8] 2" demoApi
      "[demoEast\<lparr>dBoxes := [(2, [box [4, 2] [8, 8] 2])]\<rparr>, demoWestMixed]"
      "replicate 5 0" 1 1 0 1 1 0 "[0, 0, 2, 2, 3, 2]" 1 3 "[8, 8]" "[8, 8]" "[]" "[]"]
  note a = t[THEN conjunct1, THEN mp, OF g]
  note b = t[THEN conjunct2, THEN mp, OF h]
  have res: "mapBox 2 [0, 1] [True, False] [8, 8] 0 (box [4, 2] [8, 8] 2) = box [4, 0] [8, 6] 2
   \<and> emitStep 2 demoBiFlip 3 [8, 8] [8, 8] (1, 1, 0) (1, 1, 0) [0, 0, 2, 2, 3, 2]
       (replicate 5 0, [], []) = ([3, 7, 6, 8, 8], [], [3, 7, 6, 8, 8])
   \<and> fillBox 2 3 3 1 1 0 2 [8, 8] [0, 0, 2, 2, 3, 2] (replicate 5 0) = [3, 7, 0, 8, 2]"
    by code_simp
  from a b show ?thesis by - (rule res)
qed

section \<open>The orientation mapping and its inverse\<close>

lemma nat_div_diff:
  fixes a b :: nat
  assumes "m dvd a" "m dvd b"
  shows "(a - b) div m = a div m - b div m"
proof (cases "m = 0")
  case True then show ?thesis by simp
next
  case False
  from assms(1) obtain k where k: "a = m * k" by (rule dvdE)
  from assms(2) obtain l where l: "b = m * l" by (rule dvdE)
  from False k l show ?thesis by (simp add: diff_mult_distrib2[symmetric])
qed

lemma take_bit_0_dvd:
  fixes x :: u32
  assumes "take_bit n x = 0"
  shows "2 ^ n dvd unat x"
  by (metis assms take_bit_eq_0_iff unsigned_0 unsigned_take_bit_eq)

lemma drop_bit_diff:
  fixes U x :: u32
  assumes le: "x \<le> U" and aU: "take_bit n U = 0" and ax: "take_bit n x = 0"
  shows "drop_bit n (U - x) = drop_bit n U - drop_bit n x"
proof -
  note d1 = take_bit_0_dvd[OF aU] and d2 = take_bit_0_dvd[OF ax]
  have u: "unat (drop_bit n w) = unat w div 2 ^ n" for w :: u32
    unfolding unat_drop_bit_eq by (rule drop_bit_eq_div)
  from le have ule: "unat x \<le> unat U" by (simp add: word_le_nat_alt)
  have le': "drop_bit n x \<le> drop_bit n U"
    unfolding word_le_nat_alt u using ule by (rule div_le_mono)
  have "unat (drop_bit n (U - x)) = (unat U - unat x) div 2 ^ n"
    unfolding u using le by (simp add: unat_sub)
  also have "\<dots> = unat U div 2 ^ n - unat x div 2 ^ n"
    by (rule nat_div_diff[OF d1 d2])
  also have "\<dots> = unat (drop_bit n U - drop_bit n x)"
    using le' by (simp only: unat_sub u)
  finally show ?thesis
    by (simp add: word_unat_eq_iff)
qed

lemma shr_reflect_back:
  assumes "x \<le> U" "alignedTo s U" "alignedTo s x"
  shows "shr U s - shr (U - x) s = shr x s"
proof -
  from assms have "shr (U - x) s = shr U s - shr x s"
    unfolding shr_def alignedTo_def by (rule drop_bit_diff)
  then show ?thesis by simp
qed

lemma round_trip_level:
  assumes wf: "wfOrient d dm dor" and wr: "wfBox d r" and j: "j < d" and jc: "j \<noteq> c"
    and len: "length tv = 1 + 2 * d"
    and t1: "tv ! (1 + j) = shr (lo (mapBox d dm dor uc1 e r) ! j) s"
    and t2: "tv ! (1 + d + j) = shr (up (mapBox d dm dor uc1 e r) ! j) s"
    and al: "alignedTo s (uc1 ! j)" "alignedTo s (shl (lo r ! j) e)" "alignedTo s (shl (up r ! j) e)"
    and bd: "shl (lo r ! j) e \<le> uc1 ! j" "shl (up r ! j) e \<le> uc1 ! j"
  shows "unflip d dm dor uc1 s c tv ! (1 + j) = shr (shl (lo r ! j) e) s
       \<and> unflip d dm dor uc1 s c tv ! (1 + d + j) = shr (shl (up r ! j) e) s"
proof -
  from j obtain jj where jj: "jj < d" "dm ! jj = j" using wfOrient_surj[OF wf] by blast
  note f = mapBox_nth[OF wf wr jj(1), of uc1 e, unfolded jj(2)]
  note u = unflip_nth[OF wf jj(1) len, of uc1 s c, unfolded jj(2)]
  note b1 = shr_reflect_back[OF bd(1) al(1) al(2)]
  note b2 = shr_reflect_back[OF bd(2) al(1) al(3)]
  show ?thesis
    unfolding u t1 t2 f using jc b1 b2 by simp
qed

lemma round_trip_emitted:
  fixes ilu :: u32 and uc1 :: "u32 list"
  assumes d: "d = 2 \<or> d = 3" and dir: "direction (first bi) < d"
    and wf: "wfOrient d (dirMap bi) (dirOrientation bi)" and wr: "wfBox d r"
    and len: "length tmpvec = 1 + 2 * d"
    and ax0: "sideAxes0 d bi = (a0, b0, c0)" and ax1: "sideAxes1 d bi = (a1, b1, c1)"
    and lt: "seg ! 5 < seg ! 4"
    and s0: "seg ! 0 = lo (mapBox d (dirMap bi) (dirOrientation bi) uc1 e r) ! a1"
    and s2: "seg ! 2 = up (mapBox d (dirMap bi) (dirOrientation bi) uc1 e r) ! a1"
    and s1: "seg ! 1 = lo (mapBox d (dirMap bi) (dirOrientation bi) uc1 e r) ! b1"
    and s3: "seg ! 3 = up (mapBox d (dirMap bi) (dirOrientation bi) uc1 e r) ! b1"
    and ala: "alignedTo (ilu - seg ! 4) (uc1 ! a1)"
      "alignedTo (ilu - seg ! 4) (shl (lo r ! a1) e)" "alignedTo (ilu - seg ! 4) (shl (up r ! a1) e)"
    and bda: "shl (lo r ! a1) e \<le> uc1 ! a1" "shl (up r ! a1) e \<le> uc1 ! a1"
    and alb: "d = 3 \<longrightarrow> alignedTo (ilu - seg ! 4) (uc1 ! b1)
        \<and> alignedTo (ilu - seg ! 4) (shl (lo r ! b1) e)
        \<and> alignedTo (ilu - seg ! 4) (shl (up r ! b1) e)
        \<and> shl (lo r ! b1) e \<le> uc1 ! b1 \<and> shl (up r ! b1) e \<le> uc1 ! b1"
  shows "\<exists>req. length req = 1 + 2 * d
     \<and> emitStep d bi ilu uc0 uc1 (a0, b0, c0) (a1, b1, c1) seg (tmpvec, F, S) = (req, F, S @ req)
     \<and> req ! (1 + a1) = shr (shl (lo r ! a1) e) (ilu - seg ! 4)
     \<and> req ! (1 + d + a1) = shr (shl (up r ! a1) e) (ilu - seg ! 4)
     \<and> (d = 3 \<longrightarrow> req ! (1 + b1) = shr (shl (lo r ! b1) e) (ilu - seg ! 4)
                 \<and> req ! (1 + d + b1) = shr (shl (up r ! b1) e) (ilu - seg ! 4))"
proof -
  let ?req = "unflip d (dirMap bi) (dirOrientation bi) uc1 (ilu - seg ! 4) c1
                (fillBox d ilu (seg ! 4) a1 b1 c1 (sideIndex (second bi)) uc1 seg tmpvec)"
  note p0 = sideAxes0_props[OF d dir ax0]
  note p1 = sideAxes1_props[OF d dir wf ax0 ax1]
  note e = emitStep_second[OF d dir wf len lt ax0 ax1, where ilu = ilu and ?uc1.0 = uc1
      and ?uc0.0 = uc0 and ax0' = "(a0, b0, c0)" and F = F and S = S]
  note ma = mapBox_nth[OF wf wr p0(1), of uc1 e, folded p1(1)]
  have ea: "?req ! (1 + a1) = shr (shl (lo r ! a1) e) (ilu - seg ! 4)
          \<and> ?req ! (1 + d + a1) = shr (shl (up r ! a1) e) (ilu - seg ! 4)"
    using e shr_reflect_back[OF bda(1) ala(1) ala(2)] shr_reflect_back[OF bda(2) ala(1) ala(3)]
    unfolding s0 s2 ma by simp
  have eb: "d = 3 \<longrightarrow> ?req ! (1 + b1) = shr (shl (lo r ! b1) e) (ilu - seg ! 4)
                 \<and> ?req ! (1 + d + b1) = shr (shl (up r ! b1) e) (ilu - seg ! 4)"
  proof
    assume d3: "d = 3"
    with p0(5) have b0d: "b0 < d" by simp
    note mb = mapBox_nth[OF wf wr b0d, of uc1 e, folded p1(2)]
    from alb d3 have al: "alignedTo (ilu - seg ! 4) (uc1 ! b1)"
        "alignedTo (ilu - seg ! 4) (shl (lo r ! b1) e)"
        "alignedTo (ilu - seg ! 4) (shl (up r ! b1) e)"
      and bd: "shl (lo r ! b1) e \<le> uc1 ! b1" "shl (up r ! b1) e \<le> uc1 ! b1"
      by simp_all
    from e d3 have eb': "?req ! (1 + b1) =
             (if dirOrientation bi ! b0 then shr (seg ! 1) (ilu - seg ! 4)
              else shr (uc1 ! b1) (ilu - seg ! 4) - shr (seg ! 3) (ilu - seg ! 4))"
         "?req ! (1 + d + b1) =
             (if dirOrientation bi ! b0 then shr (seg ! 3) (ilu - seg ! 4)
              else shr (uc1 ! b1) (ilu - seg ! 4) - shr (seg ! 1) (ilu - seg ! 4))"
      by blast+
    show "?req ! (1 + b1) = shr (shl (lo r ! b1) e) (ilu - seg ! 4)
                 \<and> ?req ! (1 + d + b1) = shr (shl (up r ! b1) e) (ilu - seg ! 4)"
      unfolding eb' s1 s3 mb
      using shr_reflect_back[OF bd(1) al(1) al(2)] shr_reflect_back[OF bd(2) al(1) al(3)]
      by simp
  qed
  from e have "length ?req = 1 + 2 * d"
    and "emitStep d bi ilu uc0 uc1 (a0, b0, c0) (a1, b1, c1) seg (tmpvec, F, S) = (?req, F, S @ ?req)"
    by blast+
  with ea eb show ?thesis by blast
qed

lemma round_trip_same_level:
  assumes wf: "wfOrient d dm dor" and wr: "wfBox d r" and j: "j < d" and jc: "j \<noteq> c"
  shows "unflip d dm dor uc1 0 c (L # lo (mapBox d dm dor uc1 0 r) @ up (mapBox d dm dor uc1 0 r))
           ! (1 + j) = lo r ! j
       \<and> unflip d dm dor uc1 0 c (L # lo (mapBox d dm dor uc1 0 r) @ up (mapBox d dm dor uc1 0 r))
           ! (1 + d + j) = up r ! j"
proof -
  let ?r = "mapBox d dm dor uc1 0 r"
  let ?tv = "L # lo ?r @ up ?r"
  from j obtain jj where jj: "jj < d" "dm ! jj = j" using wfOrient_surj[OF wf] by blast
  have lens: "length (lo ?r) = d" "length (up ?r) = d"
    using wr by (simp_all add: mapBox_def mapBox_fold_length wfBox_def)
  then have len: "length ?tv = 1 + 2 * d" by simp
  have t1: "?tv ! (1 + j) = lo ?r ! j" using lens j by (simp add: nth_append)
  have t2: "?tv ! (1 + d + j) = up ?r ! j" using lens j by (simp add: nth_append)
  note f = mapBox_nth[OF wf wr jj(1), of uc1 0, unfolded jj(2)]
  note u = unflip_nth[OF wf jj(1) len, of uc1 0 c, unfolded jj(2)]
  show ?thesis
    unfolding u t1 t2 f using jc by simp
qed

text \<open>
  Claim C5. The loop of lines 293-308 (the orientation mapping of a box \<open>r\<close> of the second
  side) followed by the loop of lines 439-449 (the inverse, applied to \<^verbatim>\<open>tmpvec\<close> when a
  request is written for the second patch) gives back the box, on every axis \<open>j\<close> that
  spans the interface, for every permutation \<^verbatim>\<open>dirMap\<close> and all flags \<^verbatim>\<open>dirOrient\<close>. The
  axis \<open>c\<close> normal to the side is skipped by the second loop and overwritten with the slab.

  \<^item> On one level (no rescaling, shift 0 in both loops) the entries of \<open>r\<close> come back as
    they are; subtraction wraps around, so no bound is needed.
  \<^item> On the level of a request, \<open>s = indexLevelUse - Luse\<close> below the reference level: when
    \<^verbatim>\<open>tmpvec\<close> holds the mapped entries shifted right by \<open>s\<close>, the second loop, which
    reflects about \<open>upperCorn1[j] >> s\<close>, gives the rescaled entries of \<open>r\<close> shifted right
    by \<open>s\<close>. Here the entries lie within the upper corner, and they and the corner lie on
    the grid of the level of the request.
  \<^item> The same through the code that writes the request: for a merged segment that is
    the mapped box, with the higher level on the first side, the request pushed for the
    second patch carries on the axes that span the interface the rescaled entries of \<open>r\<close>
    shifted right to the level of the request.
\<close>

theorem orientation_round_trip:
  "(wfOrient d dm dor \<and> wfBox d r \<and> j < d \<and> j \<noteq> c
    \<longrightarrow> unflip d dm dor uc1 0 c
            (L # lo (mapBox d dm dor uc1 0 r) @ up (mapBox d dm dor uc1 0 r)) ! (1 + j)
          = lo r ! j
      \<and> unflip d dm dor uc1 0 c
            (L # lo (mapBox d dm dor uc1 0 r) @ up (mapBox d dm dor uc1 0 r)) ! (1 + d + j)
          = up r ! j)
   \<and> (wfOrient d dm dor \<and> wfBox d r \<and> j < d \<and> j \<noteq> c \<and> length tv = 1 + 2 * d
      \<and> tv ! (1 + j) = shr (lo (mapBox d dm dor uc1 e r) ! j) s
      \<and> tv ! (1 + d + j) = shr (up (mapBox d dm dor uc1 e r) ! j) s
      \<and> alignedTo s (uc1 ! j) \<and> alignedTo s (shl (lo r ! j) e) \<and> alignedTo s (shl (up r ! j) e)
      \<and> shl (lo r ! j) e \<le> uc1 ! j \<and> shl (up r ! j) e \<le> uc1 ! j
    \<longrightarrow> unflip d dm dor uc1 s c tv ! (1 + j) = shr (shl (lo r ! j) e) s
      \<and> unflip d dm dor uc1 s c tv ! (1 + d + j) = shr (shl (up r ! j) e) s)
   \<and> ((d = 2 \<or> d = 3) \<and> direction (first bi) < d
      \<and> wfOrient d (dirMap bi) (dirOrientation bi) \<and> wfBox d r
      \<and> length tmpvec = 1 + 2 * d
      \<and> sideAxes0 d bi = (a0, b0, c0) \<and> sideAxes1 d bi = (a1, b1, c1)
      \<and> seg ! 5 < seg ! 4
      \<and> seg ! 0 = lo (mapBox d (dirMap bi) (dirOrientation bi) uc1 e r) ! a1
      \<and> seg ! 2 = up (mapBox d (dirMap bi) (dirOrientation bi) uc1 e r) ! a1
      \<and> seg ! 1 = lo (mapBox d (dirMap bi) (dirOrientation bi) uc1 e r) ! b1
      \<and> seg ! 3 = up (mapBox d (dirMap bi) (dirOrientation bi) uc1 e r) ! b1
      \<and> alignedTo (ilu - seg ! 4) (uc1 ! a1)
      \<and> alignedTo (ilu - seg ! 4) (shl (lo r ! a1) e)
      \<and> alignedTo (ilu - seg ! 4) (shl (up r ! a1) e)
      \<and> shl (lo r ! a1) e \<le> uc1 ! a1 \<and> shl (up r ! a1) e \<le> uc1 ! a1
      \<and> (d = 3 \<longrightarrow> alignedTo (ilu - seg ! 4) (uc1 ! b1)
            \<and> alignedTo (ilu - seg ! 4) (shl (lo r ! b1) e)
            \<and> alignedTo (ilu - seg ! 4) (shl (up r ! b1) e)
            \<and> shl (lo r ! b1) e \<le> uc1 ! b1 \<and> shl (up r ! b1) e \<le> uc1 ! b1)
    \<longrightarrow> (\<exists>req. length req = 1 + 2 * d
          \<and> emitStep d bi ilu uc0 uc1 (a0, b0, c0) (a1, b1, c1) seg (tmpvec, F, S)
              = (req, F, S @ req)
          \<and> req ! (1 + a1) = shr (shl (lo r ! a1) e) (ilu - seg ! 4)
          \<and> req ! (1 + d + a1) = shr (shl (up r ! a1) e) (ilu - seg ! 4)
          \<and> (d = 3 \<longrightarrow> req ! (1 + b1) = shr (shl (lo r ! b1) e) (ilu - seg ! 4)
                      \<and> req ! (1 + d + b1) = shr (shl (up r ! b1) e) (ilu - seg ! 4))))"
proof (intro conjI)
  show "wfOrient d dm dor \<and> wfBox d r \<and> j < d \<and> j \<noteq> c
    \<longrightarrow> unflip d dm dor uc1 0 c
            (L # lo (mapBox d dm dor uc1 0 r) @ up (mapBox d dm dor uc1 0 r)) ! (1 + j)
          = lo r ! j
      \<and> unflip d dm dor uc1 0 c
            (L # lo (mapBox d dm dor uc1 0 r) @ up (mapBox d dm dor uc1 0 r)) ! (1 + d + j)
          = up r ! j"
    by (intro impI, elim conjE, rule round_trip_same_level)
next
  show "wfOrient d dm dor \<and> wfBox d r \<and> j < d \<and> j \<noteq> c \<and> length tv = 1 + 2 * d
      \<and> tv ! (1 + j) = shr (lo (mapBox d dm dor uc1 e r) ! j) s
      \<and> tv ! (1 + d + j) = shr (up (mapBox d dm dor uc1 e r) ! j) s
      \<and> alignedTo s (uc1 ! j) \<and> alignedTo s (shl (lo r ! j) e) \<and> alignedTo s (shl (up r ! j) e)
      \<and> shl (lo r ! j) e \<le> uc1 ! j \<and> shl (up r ! j) e \<le> uc1 ! j
    \<longrightarrow> unflip d dm dor uc1 s c tv ! (1 + j) = shr (shl (lo r ! j) e) s
      \<and> unflip d dm dor uc1 s c tv ! (1 + d + j) = shr (shl (up r ! j) e) s"
    by (intro impI, elim conjE, rule round_trip_level)
next
  show "(d = 2 \<or> d = 3) \<and> direction (first bi) < d
      \<and> wfOrient d (dirMap bi) (dirOrientation bi) \<and> wfBox d r
      \<and> length tmpvec = 1 + 2 * d
      \<and> sideAxes0 d bi = (a0, b0, c0) \<and> sideAxes1 d bi = (a1, b1, c1)
      \<and> seg ! 5 < seg ! 4
      \<and> seg ! 0 = lo (mapBox d (dirMap bi) (dirOrientation bi) uc1 e r) ! a1
      \<and> seg ! 2 = up (mapBox d (dirMap bi) (dirOrientation bi) uc1 e r) ! a1
      \<and> seg ! 1 = lo (mapBox d (dirMap bi) (dirOrientation bi) uc1 e r) ! b1
      \<and> seg ! 3 = up (mapBox d (dirMap bi) (dirOrientation bi) uc1 e r) ! b1
      \<and> alignedTo (ilu - seg ! 4) (uc1 ! a1)
      \<and> alignedTo (ilu - seg ! 4) (shl (lo r ! a1) e)
      \<and> alignedTo (ilu - seg ! 4) (shl (up r ! a1) e)
      \<and> shl (lo r ! a1) e \<le> uc1 ! a1 \<and> shl (up r ! a1) e \<le> uc1 ! a1
      \<and> (d = 3 \<longrightarrow> alignedTo (ilu - seg ! 4) (uc1 ! b1)
            \<and> alignedTo (ilu - seg ! 4) (shl (lo r ! b1) e)
            \<and> alignedTo (ilu - seg ! 4) (shl (up r ! b1) e)
            \<and> shl (lo r ! b1) e \<le> uc1 ! b1 \<and> shl (up r ! b1) e \<le> uc1 ! b1)
    \<longrightarrow> (\<exists>req. length req = 1 + 2 * d
          \<and> emitStep d bi ilu uc0 uc1 (a0, b0, c0) (a1, b1, c1) seg (tmpvec, F, S)
              = (req, F, S @ req)
          \<and> req ! (1 + a1) = shr (shl (lo r ! a1) e) (ilu - seg ! 4)
          \<and> req ! (1 + d + a1) = shr (shl (up r ! a1) e) (ilu - seg ! 4)
          \<and> (d = 3 \<longrightarrow> req ! (1 + b1) = shr (shl (lo r ! b1) e) (ilu - seg ! 4)
                      \<and> req ! (1 + d + b1) = shr (shl (up r ! b1) e) (ilu - seg ! 4)))"
    by (intro impI, elim conjE, rule round_trip_emitted)
qed

text \<open>
  A box in three dimensions on one level; and the box \<open>[2, 4]\<close> of level 2 under
  reference level 3 with the tangential axis reversed: it is mapped to \<open>[4, 6]\<close>, and the
  request for the second patch carries \<open>[1, 2]\<close>, which is \<open>[2, 4]\<close> on level 2.
\<close>

theorem orientation_round_trip_witness:
  "unflip 3 [1, 0, 2] [False, False, True] [8, 16, 4] 0 2
     (5 # lo (mapBox 3 [1, 0, 2] [False, False, True] [8, 16, 4] 0 (box [1, 2, 0] [3, 5, 1] 5))
        @ up (mapBox 3 [1, 0, 2] [False, False, True] [8, 16, 4] 0 (box [1, 2, 0] [3, 5, 1] 5)))
     = [5, 1, 2, 0, 3, 5, 1]
   \<and> lo (mapBox 3 [1, 0, 2] [False, False, True] [8, 16, 4] 0 (box [1, 2, 0] [3, 5, 1] 5))
       = [5, 11, 0]
   \<and> mapBox 2 [0, 1] [True, False] [8, 8] 0 (box [4, 2] [8, 4] 2) = box [4, 4] [8, 6] 2
   \<and> unflip 2 [0, 1] [True, False] [8, 8] 1 0 [2, 3, 2, 4, 3] = [2, 3, 1, 4, 2]
   \<and> emitStep 2 demoBiFlip 3 [8, 8] [8, 8] (1, 1, 0) (1, 1, 0) [4, 4, 6, 6, 2, 1]
       (replicate 5 0, [], []) = ([2, 3, 1, 4, 2], [], [2, 3, 1, 4, 2])"
proof -
  have h1: "wfOrient 3 [1, 0, 2] [False, False, True] \<and> wfBox 3 (box [1, 2, 0] [3, 5, 1] 5)
      \<and> (1::nat) < 3 \<and> (1::nat) \<noteq> 2"
    by code_simp
  have h2: "wfOrient 2 [0, 1] [True, False] \<and> wfBox 2 (box [4, 2] [8, 4] 2)
      \<and> (1::nat) < 2 \<and> (1::nat) \<noteq> 0 \<and> length ([2, 3, 2, 4, 3] :: u32 list) = 1 + 2 * 2
      \<and> ([2, 3, 2, 4, 3] :: u32 list) ! (1 + 1)
          = shr (lo (mapBox 2 [0, 1] [True, False] [8, 8] 0 (box [4, 2] [8, 4] 2)) ! 1) 1
      \<and> ([2, 3, 2, 4, 3] :: u32 list) ! (1 + 2 + 1)
          = shr (up (mapBox 2 [0, 1] [True, False] [8, 8] 0 (box [4, 2] [8, 4] 2)) ! 1) 1
      \<and> alignedTo 1 ([8, 8] ! 1) \<and> alignedTo 1 (shl (lo (box [4, 2] [8, 4] 2) ! 1) 0)
      \<and> alignedTo 1 (shl (up (box [4, 2] [8, 4] 2) ! 1) 0)
      \<and> shl (lo (box [4, 2] [8, 4] 2) ! 1) 0 \<le> [8, 8] ! 1
      \<and> shl (up (box [4, 2] [8, 4] 2) ! 1) 0 \<le> [8, 8] ! 1"
    by code_simp
  have h3: "((2::nat) = 2 \<or> (2::nat) = 3) \<and> direction (first demoBiFlip) < 2
      \<and> wfOrient 2 (dirMap demoBiFlip) (dirOrientation demoBiFlip)
      \<and> wfBox 2 (box [4, 2] [8, 4] 2)
      \<and> length (replicate 5 (0::u32)) = 1 + 2 * 2
      \<and> sideAxes0 2 demoBiFlip = (1, 1, 0) \<and> sideAxes1 2 demoBiFlip = (1, 1, 0)
      \<and> ([4, 4, 6, 6, 2, 1] :: u32 list) ! 5 < [4, 4, 6, 6, 2, 1] ! 4
      \<and> [4, 4, 6, 6, 2, 1] ! 0
          = lo (mapBox 2 (dirMap demoBiFlip) (dirOrientation demoBiFlip) [8, 8] 0
                 (box [4, 2] [8, 4] 2)) ! 1
      \<and> [4, 4, 6, 6, 2, 1] ! 2
          = up (mapBox 2 (dirMap demoBiFlip) (dirOrientation demoBiFlip) [8, 8] 0
                 (box [4, 2] [8, 4] 2)) ! 1
      \<and> [4, 4, 6, 6, 2, 1] ! 1
          = lo (mapBox 2 (dirMap demoBiFlip) (dirOrientation demoBiFlip) [8, 8] 0
                 (box [4, 2] [8, 4] 2)) ! 1
      \<and> [4, 4, 6, 6, 2, 1] ! 3
          = up (mapBox 2 (dirMap demoBiFlip) (dirOrientation demoBiFlip) [8, 8] 0
                 (box [4, 2] [8, 4] 2)) ! 1
      \<and> alignedTo (3 - [4, 4, 6, 6, 2, 1] ! 4) ([8, 8] ! 1)
      \<and> alignedTo (3 - [4, 4, 6, 6, 2, 1] ! 4) (shl (lo (box [4, 2] [8, 4] 2) ! 1) 0)
      \<and> alignedTo (3 - [4, 4, 6, 6, 2, 1] ! 4) (shl (up (box [4, 2] [8, 4] 2) ! 1) 0)
      \<and> shl (lo (box [4, 2] [8, 4] 2) ! 1) 0 \<le> [8, 8] ! 1
      \<and> shl (up (box [4, 2] [8, 4] 2) ! 1) 0 \<le> [8, 8] ! 1
      \<and> ((2::nat) = 3 \<longrightarrow> alignedTo (3 - [4, 4, 6, 6, 2, 1] ! 4) ([8, 8] ! 1)
            \<and> alignedTo (3 - [4, 4, 6, 6, 2, 1] ! 4) (shl (lo (box [4, 2] [8, 4] 2) ! 1) 0)
            \<and> alignedTo (3 - [4, 4, 6, 6, 2, 1] ! 4) (shl (up (box [4, 2] [8, 4] 2) ! 1) 0)
            \<and> shl (lo (box [4, 2] [8, 4] 2) ! 1) 0 \<le> [8, 8] ! 1
            \<and> shl (up (box [4, 2] [8, 4] 2) ! 1) 0 \<le> [8, 8] ! 1)"
    by code_simp
  note a = orientation_round_trip [where d = 3 and dm = "[1, 0, 2]"
      and dor = "[False, False, True]" and r = "box [1, 2, 0] [3, 5, 1] 5" and j = 1 and c = 2
      and ?uc1.0 = "[8, 16, 4]" and L = 5, THEN conjunct1, THEN mp, OF h1]
  note b = orientation_round_trip [where d = 2 and dm = "[0, 1]"
      and dor = "[True, False]" and r = "box [4, 2] [8, 4] 2" and j = 1 and c = 0
      and ?uc1.0 = "[8, 8]" and tv = "[2, 3, 2, 4, 3]" and e = 0 and s = 1,
      THEN conjunct2, THEN conjunct1, THEN mp, OF h2]
  note c = orientation_round_trip [where d = 2 and bi = demoBiFlip
      and r = "box [4, 2] [8, 4] 2" and tmpvec = "replicate 5 0" and ?a0.0 = 1 and ?b0.0 = 1
      and ?c0.0 = 0 and ?a1.0 = 1 and ?b1.0 = 1 and ?c1.0 = 0 and seg = "[4, 4, 6, 6, 2, 1]"
      and ?uc1.0 = "[8, 8]" and e = 0 and ilu = 3 and ?uc0.0 = "[8, 8]" and F = "[]" and S = "[]",
      THEN conjunct2, THEN conjunct2, THEN mp, OF h3]
  have res: "unflip 3 [1, 0, 2] [False, False, True] [8, 16, 4] 0 2
     (5 # lo (mapBox 3 [1, 0, 2] [False, False, True] [8, 16, 4] 0 (box [1, 2, 0] [3, 5, 1] 5))
        @ up (mapBox 3 [1, 0, 2] [False, False, True] [8, 16, 4] 0 (box [1, 2, 0] [3, 5, 1] 5)))
     = [5, 1, 2, 0, 3, 5, 1]
   \<and> lo (mapBox 3 [1, 0, 2] [False, False, True] [8, 16, 4] 0 (box [1, 2, 0] [3, 5, 1] 5))
       = [5, 11, 0]
   \<and> mapBox 2 [0, 1] [True, False] [8, 8] 0 (box [4, 2] [8, 4] 2) = box [4, 4] [8, 6] 2
   \<and> unflip 2 [0, 1] [True, False] [8, 8] 1 0 [2, 3, 2, 4, 3] = [2, 3, 1, 4, 2]
   \<and> emitStep 2 demoBiFlip 3 [8, 8] [8, 8] (1, 1, 0) (1, 1, 0) [4, 4, 6, 6, 2, 1]
       (replicate 5 0, [], []) = ([2, 3, 1, 4, 2], [], [2, 3, 1, 4, 2])"
    by code_simp
  from a b c show ?thesis by - (rule res)
qed

section \<open>A conforming interface\<close>

lemma emitAll_equal_levels:
  "\<forall>seg\<in>set segs. seg ! 4 = seg ! 5 \<Longrightarrow>
   fold (emitStep d bi ilu uc0 uc1 ax0 ax1) segs st = st"
  by (induction segs arbitrary: st) (simp_all add: emitStep_equal)

lemma emitAll2d_equal_levels:
  "\<forall>(k, l0, l1)\<in>set segs. l0 = l1 \<Longrightarrow>
   \<exists>k. emitAll2d bi ilu uc0 uc1 op dir1 segs (k0, F, S) = Inr (k, F, S)"
proof (induction segs arbitrary: k0)
  case Nil
  then show ?case by simp
next
  case (Cons seg segs)
  obtain k l0 l1 where seg: "seg = (k, l0, l1)" by (cases seg)
  with Cons.prems have eq: "l0 = l1" by simp
  then have step: "emitStep2d bi ilu uc0 uc1 op dir1 seg (k0, F, S) = Inr (k, F, S)"
    by (simp add: emitStep2d_def seg)
  from Cons.prems have "\<forall>(k, l0, l1)\<in>set segs. l0 = l1" by simp
  from Cons.IH[OF this, of k] step show ?case by simp
qed

text \<open>
  Claim C6. When every merged segment carries the same level on both sides, no request
  is collected for either patch: \<^verbatim>\<open>repairInterfaceFindElements\<close> returns two empty
  vectors and false, \<^verbatim>\<open>repairInterface\<close> returns false and leaves the bases as they
  are, and so a second call on the bases it returns gives the same result. The same holds
  for \<^verbatim>\<open>repairInterface2d\<close> when its assertions pass. The result is a normal return
  (\<open>Inr\<close>), not a failure.
\<close>

theorem conforming_interface_no_requests:
  "((d = 2 \<or> d = 3)
      \<and> isHTensorBasis api d (m_bases ! patch (first bi))
      \<and> isHTensorBasis api d (m_bases ! patch (second bi))
      \<and> (\<forall>seg\<in>set (iU api d m_bases bi). seg ! 4 = seg ! 5)
    \<longrightarrow> repairInterfaceFindElements api d m_bases bi = Inr ([], [], False)
      \<and> (\<exists>m'. repairInterface api d m_bases bi = Inr (m', False) \<and> m' = m_bases
              \<and> repairInterface api d m' bi = Inr (m', False)))
   \<and> (isHTensorBasis api 2 (m_bases ! patch (first bi))
      \<and> isHTensorBasis api 2 (m_bases ! patch (second bi))
      \<and> intfc0 api m_bases bi \<noteq> [] \<and> intfc1 api m_bases bi \<noteq> []
      \<and> fst (snd (last (intfc0 api m_bases bi))) = fst (snd (last (intfc1 api m_bases bi)))
      \<and> (\<forall>(k, l0, l1)\<in>set (intfcU api m_bases bi). l0 = l1)
    \<longrightarrow> (\<exists>k. findElements2d api m_bases bi = Inr (k, [], []))
      \<and> (\<exists>m'. repairInterface2d api m_bases bi = Inr (m', False) \<and> m' = m_bases
              \<and> repairInterface2d api m' bi = Inr (m', False)))"
proof (intro conjI impI; (elim conjE)?)
  assume h: "d = 2 \<or> d = 3" "isHTensorBasis api d (m_bases ! patch (first bi))"
    "isHTensorBasis api d (m_bases ! patch (second bi))"
    "\<forall>seg\<in>set (iU api d m_bases bi). seg ! 4 = seg ! 5"
  have fe: "repairInterfaceFindElements api d m_bases bi = Inr ([], [], False)"
    using h(1-3) emitAll_equal_levels[OF h(4)]
    by (simp add: repairInterfaceFindElements_def emitAll_def)
  then show "repairInterfaceFindElements api d m_bases bi = Inr ([], [], False)" .
  from fe h(1) have "repairInterface api d m_bases bi = Inr (m_bases, False)"
    by (auto simp: repairInterface_def)
  then show "\<exists>m'. repairInterface api d m_bases bi = Inr (m', False) \<and> m' = m_bases
              \<and> repairInterface api d m' bi = Inr (m', False)"
    by simp
next
  assume h: "isHTensorBasis api 2 (m_bases ! patch (first bi))"
    "isHTensorBasis api 2 (m_bases ! patch (second bi))"
    "intfc0 api m_bases bi \<noteq> []" "intfc1 api m_bases bi \<noteq> []"
    "fst (snd (last (intfc0 api m_bases bi))) = fst (snd (last (intfc1 api m_bases bi)))"
    "\<forall>(k, l0, l1)\<in>set (intfcU api m_bases bi). l0 = l1"
  from emitAll2d_equal_levels[OF h(6)] h(1-5)
  show fe: "\<exists>k. findElements2d api m_bases bi = Inr (k, [], [])"
    by (simp add: findElements2d_def)
  then obtain k where "findElements2d api m_bases bi = Inr (k, [], [])" ..
  then have "repairInterface2d api m_bases bi = Inr (m_bases, False)"
    by (simp add: repairInterface2d_def)
  then show "\<exists>m'. repairInterface2d api m_bases bi = Inr (m', False) \<and> m' = m_bases
              \<and> repairInterface2d api m' bi = Inr (m', False)"
    by simp
qed

theorem conforming_interface_no_requests_witness:
  "repairInterfaceFindElements demoApi 2 [demoEast, demoWestSame] demoBi = Inr ([], [], False)
   \<and> repairInterface demoApi 2 [demoEast, demoWestSame] demoBi
       = Inr ([demoEast, demoWestSame], False)
   \<and> findElements2d demoApi [demoEast, demoWestSame] demoBi = Inr (8, [], [])
   \<and> repairInterface2d demoApi [demoEast, demoWestSame] demoBi
       = Inr ([demoEast, demoWestSame], False)"
proof -
  have g: "((2::nat) = 2 \<or> (2::nat) = 3)
      \<and> isHTensorBasis demoApi 2 ([demoEast, demoWestSame] ! patch (first demoBi))
      \<and> isHTensorBasis demoApi 2 ([demoEast, demoWestSame] ! patch (second demoBi))
      \<and> (\<forall>seg\<in>set (iU demoApi 2 [demoEast, demoWestSame] demoBi). seg ! 4 = seg ! 5)"
    by code_simp
  have h: "isHTensorBasis demoApi 2 ([demoEast, demoWestSame] ! patch (first demoBi))
      \<and> isHTensorBasis demoApi 2 ([demoEast, demoWestSame] ! patch (second demoBi))
      \<and> intfc0 demoApi [demoEast, demoWestSame] demoBi \<noteq> []
      \<and> intfc1 demoApi [demoEast, demoWestSame] demoBi \<noteq> []
      \<and> fst (snd (last (intfc0 demoApi [demoEast, demoWestSame] demoBi)))
           = fst (snd (last (intfc1 demoApi [demoEast, demoWestSame] demoBi)))
      \<and> (\<forall>(k, l0, l1)\<in>set (intfcU demoApi [demoEast, demoWestSame] demoBi). l0 = l1)"
    by code_simp
  note t = conforming_interface_no_requests [of 2 demoApi "[demoEast, demoWestSame]" demoBi]
  note a = t[THEN conjunct1, THEN mp, OF g]
  note b = t[THEN conjunct2, THEN mp, OF h]
  have k: "findElements2d demoApi [demoEast, demoWestSame] demoBi = Inr (8, [], [])"
    by code_simp
  from a b k show ?thesis by simp
qed

section \<open>The assertion on the final coordinate\<close>

text \<open>
  Claim C8, as amended. \<^verbatim>\<open>repairInterface2d\<close> returns only if both sorted tables have a
  last row and the end knots of the two last rows are equal; when both bases are
  hierarchical, both tables have rows and the two end knots differ, it fails with the
  assertion of line 536. (\<^verbatim>\<open>repairInterfaceFindElements\<close> has no such assertion: lines
  274-277 are commented out.)
\<close>

theorem final_coordinate_assertion:
  "(repairInterface2d api m_bases bi = Inr x
    \<longrightarrow> intfc0 api m_bases bi \<noteq> [] \<and> intfc1 api m_bases bi \<noteq> []
      \<and> fst (snd (last (intfc0 api m_bases bi))) = fst (snd (last (intfc1 api m_bases bi))))
   \<and> (isHTensorBasis api 2 (m_bases ! patch (first bi))
      \<and> isHTensorBasis api 2 (m_bases ! patch (second bi))
      \<and> intfc0 api m_bases bi \<noteq> [] \<and> intfc1 api m_bases bi \<noteq> []
      \<and> fst (snd (last (intfc0 api m_bases bi))) \<noteq> fst (snd (last (intfc1 api m_bases bi)))
    \<longrightarrow> findElements2d api m_bases bi
          = Inl (AssertFailed '' Something wrong with interfaces! Mark 264'')
      \<and> repairInterface2d api m_bases bi
          = Inl (AssertFailed '' Something wrong with interfaces! Mark 264''))"
proof (intro conjI impI; (elim conjE)?)
  assume r: "repairInterface2d api m_bases bi = Inr x"
  then obtain y where y: "findElements2d api m_bases bi = Inr y"
    by (cases "findElements2d api m_bases bi") (auto simp: repairInterface2d_def)
  from y show "intfc0 api m_bases bi \<noteq> []"
    by (auto simp: findElements2d_def split: if_splits)
  from y show "intfc1 api m_bases bi \<noteq> []"
    by (auto simp: findElements2d_def split: if_splits)
  from y show "fst (snd (last (intfc0 api m_bases bi))) = fst (snd (last (intfc1 api m_bases bi)))"
    by (auto simp: findElements2d_def split: if_splits)
next
  assume h: "isHTensorBasis api 2 (m_bases ! patch (first bi))"
    "isHTensorBasis api 2 (m_bases ! patch (second bi))"
    "intfc0 api m_bases bi \<noteq> []" "intfc1 api m_bases bi \<noteq> []"
    "fst (snd (last (intfc0 api m_bases bi))) \<noteq> fst (snd (last (intfc1 api m_bases bi)))"
  then show fe: "findElements2d api m_bases bi
          = Inl (AssertFailed '' Something wrong with interfaces! Mark 264'')"
    by (simp add: findElements2d_def)
  then show "repairInterface2d api m_bases bi
          = Inl (AssertFailed '' Something wrong with interfaces! Mark 264'')"
    by (simp add: repairInterface2d_def)
qed

theorem final_coordinate_assertion_witness:
  "repairInterface2d demoApi [demoEast, demoWestShort] demoBi
       = Inl (AssertFailed '' Something wrong with interfaces! Mark 264'')
   \<and> fst (snd (last (intfc0 demoApi [demoEast, demoWest] demoBi))) = 8
   \<and> fst (snd (last (intfc1 demoApi [demoEast, demoWest] demoBi))) = 8"
proof -
  have h: "isHTensorBasis demoApi 2 ([demoEast, demoWestShort] ! patch (first demoBi))
      \<and> isHTensorBasis demoApi 2 ([demoEast, demoWestShort] ! patch (second demoBi))
      \<and> intfc0 demoApi [demoEast, demoWestShort] demoBi \<noteq> []
      \<and> intfc1 demoApi [demoEast, demoWestShort] demoBi \<noteq> []
      \<and> fst (snd (last (intfc0 demoApi [demoEast, demoWestShort] demoBi)))
           \<noteq> fst (snd (last (intfc1 demoApi [demoEast, demoWestShort] demoBi)))"
    by code_simp
  have r: "repairInterface2d demoApi [demoEast, demoWest] demoBi
       = Inr ([demoEast\<lparr>dRefined := [[3, 7, 0, 8, 4, 3, 7, 4, 8, 8]]\<rparr>, demoWest], True)"
    by code_simp
  have e: "fst (snd (last (intfc0 demoApi [demoEast, demoWest] demoBi))) = 8"
    by code_simp
  note a = final_coordinate_assertion [of demoApi "[demoEast, demoWestShort]" demoBi,
      THEN conjunct2, THEN mp, OF h, THEN conjunct2]
  note b = final_coordinate_assertion [of demoApi "[demoEast, demoWest]" demoBi,
      THEN conjunct1, THEN mp, OF r, THEN conjunct2, THEN conjunct2]
  from a b e show ?thesis by simp
qed

text \<open>
  The claim as it was stated, for every path of the reconciliation, fails on the
  general-dimension path: the box of the first side ends at knot 8 and the box of the
  second side at knot 4, and \<^verbatim>\<open>repairInterfaceFindElements\<close> and \<^verbatim>\<open>repairInterface\<close>
  return normally.
\<close>

theorem final_coordinate_counterexample:
  "boxes0 demoApi 2 [demoEast, demoWestShort] demoBi = [box [4, 0] [8, 8] 2]
   \<and> boxes1 demoApi 2 [demoEast, demoWestShort] demoBi = [box [0, 0] [4, 4] 2]
   \<and> fst (snd (last (intfc0 demoApi [demoEast, demoWestShort] demoBi))) = 8
   \<and> fst (snd (last (intfc1 demoApi [demoEast, demoWestShort] demoBi))) = 4
   \<and> repairInterfaceFindElements demoApi 2 [demoEast, demoWestShort] demoBi = Inr ([], [], False)
   \<and> repairInterface demoApi 2 [demoEast, demoWestShort] demoBi
       = Inr ([demoEast, demoWestShort], False)"
  by code_simp

end
